theory Spec2Isabelle
  imports Main
begin

section \<open>Data model of package storage\<close>

text \<open>
  A \<open>time.Time\<close> is modelled as the instant it denotes, in nanoseconds (an unbounded
  integer: Go stores seconds and nanoseconds separately and covers far more than 64 bits of
  nanoseconds). A \<open>time.Duration\<close> is a signed 64-bit count of nanoseconds.
  \<open>Time.Sub\<close> saturates at the largest and smallest duration, as Go documents it. The
  instants of a listing carry no monotonic clock reading, so the difference is that of
  the instants.
\<close>

type_synonym Time = int
type_synonym Duration = int

definition maxDuration :: Duration where
  "maxDuration = 2 ^ 63 - 1"

definition minDuration :: Duration where
  "minDuration = - (2 ^ 63)"

definition Time_Sub :: "Time \<Rightarrow> Time \<Rightarrow> Duration" where
  "Time_Sub t u =
     (let d = t - u
      in if maxDuration < d then maxDuration
         else if d < minDuration then minDuration
         else d)"

record Metadata =
  Path :: string
  LastModified :: Time

record Object = Metadata +
  Content :: string

record ObjectSliceDiff =
  Change :: bool
  Removed :: "Object list"
  Added :: "Object list"
  Updated :: "Object list"

section \<open>GetObjectSliceDiff\<close>

text \<open>
  The two loops \<open>for _, o := range xs { m[o.Path] = o }\<close>: a later object of the same
  path overwrites an earlier one.
\<close>

fun index_objects :: "Object list \<Rightarrow> (string \<rightharpoonup> Object) \<Rightarrow> (string \<rightharpoonup> Object)" where
  "index_objects [] m = m"
| "index_objects (o1 # os) m = index_objects os (m(Path o1 \<mapsto> o1))"

text \<open>The loop over \<open>prev\<close>: updated when found in \<open>cos\<close> and the delta exceeds the
  tolerance, removed when not found.\<close>

fun scan_prev :: "(string \<rightharpoonup> Object) \<Rightarrow> Duration \<Rightarrow> Object list \<Rightarrow> ObjectSliceDiff \<Rightarrow> ObjectSliceDiff" where
  "scan_prev cos tol [] diff = diff"
| "scan_prev cos tol (p # ps) diff =
     scan_prev cos tol ps
       (case cos (Path p) of
          Some c \<Rightarrow>
            if tol < Time_Sub (LastModified c) (LastModified p)
            then diff\<lparr>Updated := Updated diff @ [c]\<rparr>
            else diff
        | None \<Rightarrow> diff\<lparr>Removed := Removed diff @ [p]\<rparr>)"

text \<open>The loop over \<open>curr\<close>: added when not found in \<open>pos\<close>.\<close>

fun scan_curr :: "(string \<rightharpoonup> Object) \<Rightarrow> Object list \<Rightarrow> ObjectSliceDiff \<Rightarrow> ObjectSliceDiff" where
  "scan_curr pos [] diff = diff"
| "scan_curr pos (c # cs) diff =
     scan_curr pos cs
       (case pos (Path c) of
          None \<Rightarrow> diff\<lparr>Added := Added diff @ [c]\<rparr>
        | Some _ \<Rightarrow> diff)"

definition GetObjectSliceDiff :: "Object list \<Rightarrow> Object list \<Rightarrow> Duration \<Rightarrow> ObjectSliceDiff" where
  "GetObjectSliceDiff prev cur timestampTolerance =
     (let diff0 = \<lparr>Change = False, Removed = [], Added = [], Updated = []\<rparr>;
          pos = index_objects prev Map.empty;
          cos = index_objects cur Map.empty;
          diff1 = scan_prev cos timestampTolerance prev diff0;
          diff2 = scan_curr pos cur diff1
      in diff2\<lparr>Change := 0 < length (Removed diff2) + length (Added diff2) + length (Updated diff2)\<rparr>)"

text \<open>The object a slice holds for a path, read off the slice itself: the last one of
  that path. It is what the index built by the code holds.\<close>

definition current_of :: "Object list \<Rightarrow> string \<Rightarrow> Object option" where
  "current_of xs k = find (\<lambda>x. Path x = k) (rev xs)"

definition paths_of :: "Object list \<Rightarrow> string set" where
  "paths_of xs = Path ` set xs"

text \<open>What one iteration of the loop over \<open>prev\<close> appends to \<open>Updated\<close>, if anything.\<close>

definition upd_of :: "(string \<rightharpoonup> Object) \<Rightarrow> Duration \<Rightarrow> Object \<Rightarrow> Object option" where
  "upd_of cos tol p =
     (case cos (Path p) of
        Some c \<Rightarrow> if tol < Time_Sub (LastModified c) (LastModified p) then Some c else None
      | None \<Rightarrow> None)"

section \<open>Path rules\<close>

text \<open>Go strings are byte sequences; \<open>string\<close> is a list of bytes. The helpers of
  package \<open>strings\<close> the code calls, on the argument the code passes.\<close>

definition HasPrefix :: "string \<Rightarrow> string \<Rightarrow> bool" where
  "HasPrefix s pre = (take (length pre) s = pre)"

definition HasSuffix :: "string \<Rightarrow> string \<Rightarrow> bool" where
  "HasSuffix s suf = (length suf \<le> length s \<and> drop (length s - length suf) s = suf)"

definition TrimPrefix :: "string \<Rightarrow> string \<Rightarrow> string" where
  "TrimPrefix s pre = (if HasPrefix s pre then drop (length pre) s else s)"

text \<open>\<open>strings.Trim(s, "/")\<close>: all leading and trailing separators removed.\<close>

definition Trim_slash :: "string \<Rightarrow> string" where
  "Trim_slash s = rev (dropWhile (\<lambda>c. c = CHR ''/'') (rev (dropWhile (\<lambda>c. c = CHR ''/'') s)))"

text \<open>\<open>strings.Split(s, "/")\<close>: the pieces between separators, one piece for a string
  without separator (the empty string included).\<close>

fun Split_slash :: "string \<Rightarrow> string list" where
  "Split_slash [] = [[]]"
| "Split_slash (c # cs) =
     (if c = CHR ''/'' then [] # Split_slash cs
      else (case Split_slash cs of
              [] \<Rightarrow> [[c]]
            | e # es \<Rightarrow> (c # e) # es))"

text \<open>\<open>strings.Join(elems, "/")\<close>.\<close>

fun Join_slash :: "string list \<Rightarrow> string" where
  "Join_slash [] = []"
| "Join_slash [e] = e"
| "Join_slash (e # f # es) = e @ ''/'' @ Join_slash (f # es)"

text \<open>
  \<open>path.Clean\<close> of the Go library, by its documented rules, on the elements between
  separators. \<open>out\<close> is the output written so far, last element first: an empty element
  and \<open>.\<close> are skipped; \<open>..\<close> removes the last element written when there is one that is
  not itself \<open>..\<close>, is dropped at the root of a rooted path, and is written otherwise;
  any other element is written. An empty result is \<open>.\<close>.
\<close>

definition clean_step :: "bool \<Rightarrow> string list \<Rightarrow> string \<Rightarrow> string list" where
  "clean_step rooted out e =
     (if e = [] \<or> e = ''.'' then out
      else if e = ''..'' then
        (case out of
           [] \<Rightarrow> if rooted then [] else [''..'']
         | x # xs \<Rightarrow> if x = ''..'' then ''..'' # out else xs)
      else e # out)"

definition Clean :: "string \<Rightarrow> string" where
  "Clean path =
     (if path = [] then ''.''
      else
        let rooted = (hd path = CHR ''/'');
            out = foldl (clean_step rooted) [] (Split_slash path)
        in if rooted then ''/'' @ Join_slash (rev out)
           else if out = [] then ''.''
           else Join_slash (rev out))"

text \<open>\<open>path.Join\<close>: empty elements are ignored, the rest is joined by separators and
  cleaned; the result is empty when every element is.\<close>

definition Join :: "string list \<Rightarrow> string" where
  "Join elem =
     (let es = filter (\<lambda>e. e \<noteq> []) elem
      in if es = [] then [] else Clean (Join_slash es))"

text \<open>The three path helpers of the package.\<close>

definition cleanPrefix :: "string \<Rightarrow> string" where
  "cleanPrefix prefix = Trim_slash prefix"

definition removePrefixFromObjectPath :: "string \<Rightarrow> string \<Rightarrow> string" where
  "removePrefixFromObjectPath prefix path =
     (if prefix = [] then path
      else
        let prefix' = (if \<not> HasSuffix prefix ''/'' then prefix @ ''/'' else prefix)
        in TrimPrefix path prefix')"

definition objectPathIsInvalid :: "string \<Rightarrow> bool" where
  "objectPathIsInvalid path = (CHR ''/'' \<in> set path \<or> path = [])"

text \<open>The key every backend operation computes from its root prefix and the caller's
  path: \<open>cleanPrefix(pathutil.Join(b.Prefix, path))\<close>.\<close>

definition normalize :: "string \<Rightarrow> string \<Rightarrow> string" where
  "normalize r p = cleanPrefix (Join [r, p])"

text \<open>An element that \<open>Clean\<close> keeps as it is.\<close>

definition plain_elem :: "string \<Rightarrow> bool" where
  "plain_elem e = (e \<noteq> [] \<and> e \<noteq> ''.'' \<and> e \<noteq> ''..'')"

text \<open>A root prefix made of plain elements only, or empty.\<close>

definition plain_root :: "string \<Rightarrow> bool" where
  "plain_root r = (r = [] \<or> list_all plain_elem (Split_slash r))"

text \<open>A relative path whose clean form stays below the directory it is relative to:
  not rooted, not cleaning to \<open>.\<close>, no \<open>..\<close> left after cleaning.\<close>

definition stays_below :: "string \<Rightarrow> bool" where
  "stays_below p = (p \<noteq> [] \<and> hd p \<noteq> CHR ''/'' \<and> Clean p \<noteq> ''.''
      \<and> ''..'' \<notin> set (Split_slash (Clean p)))"

section \<open>Errors\<close>

text \<open>
  Go error values. The three sentinels the package declares, \<open>io.EOF\<close>, the file system's
  "does not exist" (the errors \<open>os.IsNotExist\<close> accepts), an \<open>awserr.Error\<close> with its
  code, and any other error (an \<open>errors.New\<close> of the code, or an error that is not an
  \<open>awserr.Error\<close>) with its message. Sentinels are compared by identity, so each is a
  constructor of its own.
\<close>

datatype error =
    ErrPrefixIsAnObject
  | ErrNotImplemented
  | ErrNewPathNotEmpty
  | EOF
  | ErrNotExist
  | AwsError string
  | PlainError string

text \<open>The test \<open>aerr, ok := err.(awserr.Error); ok && aerr.Code() != "NotFound"\<close> and
  its sibling with \<open>!ok ||\<close>.\<close>

fun aws_and_not_NotFound :: "error \<Rightarrow> bool" where
  "aws_and_not_NotFound (AwsError code) = (code \<noteq> ''NotFound'')"
| "aws_and_not_NotFound _ = False"

fun not_aws_or_not_NotFound :: "error \<Rightarrow> bool" where
  "not_aws_or_not_NotFound (AwsError code) = (code \<noteq> ''NotFound'')"
| "not_aws_or_not_NotFound _ = True"

section \<open>The S3 client\<close>

text \<open>
  The bucket behind \<open>b.Client\<close>: a map from keys to objects, answering the four requests
  the code sends. Any request may fail (\<open>fault\<close>: transport, authorisation); a request
  that fails changes nothing. How the service answers a listing is left open (\<open>lister\<close>).
  Every request is logged in \<open>requests\<close>, oldest first. A copy names its source by key
  (the code sends \<open>url.PathEscape(bucket + "/" + key)\<close>, which the service decodes).
\<close>

record S3Object =
  Body :: string
  Modified :: Time

record ListObjectsV2Input =
  in_Prefix :: string
  in_Delimiter :: "string option"
  in_MaxKeys :: "int option"
  in_ContinuationToken :: "string option"

record S3Content =
  Key :: "string option"
  Key_LastModified :: "Time option"

record ListObjectsV2Output =
  CommonPrefixes :: "string option list"
  Contents :: "S3Content list"
  IsTruncated :: "bool option"
  KeyCount :: "int option"
  out_ContinuationToken :: "string option"
  NextContinuationToken :: "string option"

datatype S3Request =
    HeadObjectReq string
  | ListObjectsV2Req ListObjectsV2Input
  | CopyObjectReq string string
  | DeleteObjectReq string

record S3 =
  objects :: "string \<rightharpoonup> S3Object"
  fault :: "S3Request \<Rightarrow> error option"
  lister :: "(string \<rightharpoonup> S3Object) \<Rightarrow> ListObjectsV2Input \<Rightarrow> ListObjectsV2Output"
  requests :: "S3Request list"

definition sent :: "S3 \<Rightarrow> S3Request \<Rightarrow> S3" where
  "sent w rq = w\<lparr>requests := requests w @ [rq]\<rparr>"

definition Client_HeadObject :: "S3 \<Rightarrow> string \<Rightarrow> error option \<times> S3" where
  "Client_HeadObject w k =
     (case fault w (HeadObjectReq k) of
        Some e \<Rightarrow> (Some e, sent w (HeadObjectReq k))
      | None \<Rightarrow>
          (case objects w k of
             None \<Rightarrow> (Some (AwsError ''NotFound''), sent w (HeadObjectReq k))
           | Some _ \<Rightarrow> (None, sent w (HeadObjectReq k))))"

definition Client_ListObjectsV2 :: "S3 \<Rightarrow> ListObjectsV2Input \<Rightarrow> (error + ListObjectsV2Output) \<times> S3" where
  "Client_ListObjectsV2 w inp =
     (case fault w (ListObjectsV2Req inp) of
        Some e \<Rightarrow> (Inl e, sent w (ListObjectsV2Req inp))
      | None \<Rightarrow> (Inr (lister w (objects w) inp), sent w (ListObjectsV2Req inp)))"

definition Client_CopyObject :: "S3 \<Rightarrow> string \<Rightarrow> string \<Rightarrow> error option \<times> S3" where
  "Client_CopyObject w src dst =
     (case fault w (CopyObjectReq src dst) of
        Some e \<Rightarrow> (Some e, sent w (CopyObjectReq src dst))
      | None \<Rightarrow>
          (case objects w src of
             None \<Rightarrow> (Some (AwsError ''NoSuchKey''), sent w (CopyObjectReq src dst))
           | Some ob \<Rightarrow> (None, (sent w (CopyObjectReq src dst))\<lparr>objects := (objects w)(dst \<mapsto> ob)\<rparr>)))"

definition Client_DeleteObject :: "S3 \<Rightarrow> string \<Rightarrow> error option \<times> S3" where
  "Client_DeleteObject w k =
     (case fault w (DeleteObjectReq k) of
        Some e \<Rightarrow> (Some e, sent w (DeleteObjectReq k))
      | None \<Rightarrow> (None, (sent w (DeleteObjectReq k))\<lparr>objects := (objects w)(k := None)\<rparr>))"

section \<open>AmazonS3Backend: delete and rename (amazon.go)\<close>

record AmazonS3Backend =
  Bucket :: string
  Prefix :: string
  SSE :: string

definition DeleteObject :: "AmazonS3Backend \<Rightarrow> S3 \<Rightarrow> string \<Rightarrow> error option \<times> S3" where
  "DeleteObject b w path = Client_DeleteObject w (cleanPrefix (Join [Prefix b, path]))"

definition moveObject :: "AmazonS3Backend \<Rightarrow> S3 \<Rightarrow> string \<Rightarrow> string \<Rightarrow> error option \<times> S3" where
  "moveObject b w path newPath =
     (case Client_CopyObject w path newPath of
        (Some err, w1) \<Rightarrow> (Some err, w1)
      | (None, w1) \<Rightarrow> DeleteObject b w1 path)"

text \<open>The inner loop of the rename of a prefix, over the contents of one listing page:
  stops at the first move that fails.\<close>

fun move_contents :: "AmazonS3Backend \<Rightarrow> string \<Rightarrow> string \<Rightarrow> S3Content list \<Rightarrow> S3 \<Rightarrow> error option \<times> S3" where
  "move_contents b prefix newPath [] w = (None, w)"
| "move_contents b prefix newPath (ob # obs) w =
     (case Key ob of
        None \<Rightarrow> move_contents b prefix newPath obs w
      | Some k \<Rightarrow>
          if k = [] then move_contents b prefix newPath obs w
          else
            let key = removePrefixFromObjectPath prefix k
            in if key = [] \<or> key = ''/'' then move_contents b prefix newPath obs w
               else
                 (case moveObject b w k (cleanPrefix (Join [Prefix b, newPath, key])) of
                    (Some err, w1) \<Rightarrow> (Some err, w1)
                  | (None, w1) \<Rightarrow> move_contents b prefix newPath obs w1))"

text \<open>The outer loop \<open>for !isEof\<close>, one listing page per round. Nothing bounds the number
  of rounds, so the model takes fuel and returns \<open>None\<close> when it runs out. The token of the
  next request is the \<open>ContinuationToken\<close> field of the answer, as the code reads it.\<close>

fun move_pages :: "nat \<Rightarrow> AmazonS3Backend \<Rightarrow> string \<Rightarrow> string \<Rightarrow> string \<Rightarrow> S3 \<Rightarrow> (error option \<times> S3) option" where
  "move_pages 0 b prefix newPath continuationToken w = None"
| "move_pages (Suc n) b prefix newPath continuationToken w =
     (case Client_ListObjectsV2 w
             \<lparr>in_Prefix = prefix, in_Delimiter = None, in_MaxKeys = None,
              in_ContinuationToken = (if continuationToken \<noteq> [] then Some continuationToken else None)\<rparr> of
        (Inl err, w1) \<Rightarrow> Some (Some err, w1)
      | (Inr out, w1) \<Rightarrow>
          let continuationToken' = (case out_ContinuationToken out of Some t \<Rightarrow> t | None \<Rightarrow> continuationToken);
              isEof = (case IsTruncated out of None \<Rightarrow> True | Some t \<Rightarrow> \<not> t)
          in (case move_contents b prefix newPath (Contents out) w1 of
                (Some err, w2) \<Rightarrow> Some (Some err, w2)
              | (None, w2) \<Rightarrow>
                  if isEof then Some (None, w2)
                  else move_pages n b prefix newPath continuationToken' w2))"

definition RenamePrefixOrObject :: "nat \<Rightarrow> AmazonS3Backend \<Rightarrow> S3 \<Rightarrow> string \<Rightarrow> string \<Rightarrow> (error option \<times> S3) option" where
  "RenamePrefixOrObject fuel b w path newPath =
     (case Client_HeadObject w (cleanPrefix (Join [Prefix b, newPath])) of
        (None, w1) \<Rightarrow> Some (Some ErrNewPathNotEmpty, w1)
      | (Some err, w1) \<Rightarrow>
          if not_aws_or_not_NotFound err then Some (Some err, w1)
          else
            (case Client_ListObjectsV2 w1
                    \<lparr>in_Prefix = cleanPrefix (Join [Prefix b, newPath]) @ ''/'', in_Delimiter = None,
                     in_MaxKeys = Some 1, in_ContinuationToken = None\<rparr> of
               (Inl err, w2) \<Rightarrow> Some (Some err, w2)
             | (Inr listObjectsOutput, w2) \<Rightarrow>
                 if (case KeyCount listObjectsOutput of None \<Rightarrow> False | Some k \<Rightarrow> 0 < k)
                 then Some (Some ErrNewPathNotEmpty, w2)
                 else
                   (case Client_HeadObject w2 (cleanPrefix (Join [Prefix b, path])) of
                      (Some err, w3) \<Rightarrow>
                        if not_aws_or_not_NotFound err then Some (Some err, w3)
                        else move_pages fuel b (cleanPrefix (Join [Prefix b, path]) @ ''/'') newPath [] w3
                    | (None, w3) \<Rightarrow>
                        Some (moveObject b w3 (cleanPrefix (Join [Prefix b, path]))
                                (cleanPrefix (Join [Prefix b, newPath]))))))"

text \<open>A request list without copy and without delete.\<close>

definition no_copy_no_delete :: "S3Request list \<Rightarrow> bool" where
  "no_copy_no_delete rs =
     list_all (\<lambda>rq. case rq of CopyObjectReq _ _ \<Rightarrow> False | DeleteObjectReq _ \<Rightarrow> False | _ \<Rightarrow> True) rs"

text \<open>A small bucket for examples: objects \<open>old\<close>, \<open>new\<close> and \<open>dir/x\<close>; a listing under
  \<open>dir/\<close> reports one key, any other listing none; deleting \<open>old\<close> is refused.\<close>

definition example_backend :: AmazonS3Backend where
  "example_backend = \<lparr>Bucket = ''charts'', Prefix = [], SSE = []\<rparr>"

definition example_bucket :: S3 where
  "example_bucket =
     \<lparr>objects = [''old'' \<mapsto> \<lparr>Body = ''x'', Modified = 0\<rparr>,
                 ''new'' \<mapsto> \<lparr>Body = ''y'', Modified = 0\<rparr>,
                 ''dir/x'' \<mapsto> \<lparr>Body = ''z'', Modified = 0\<rparr>],
      fault = (\<lambda>rq. if rq = DeleteObjectReq ''old'' then Some (AwsError ''AccessDenied'') else None),
      lister = (\<lambda>_ inp.
         if in_Prefix inp = ''dir/''
         then \<lparr>CommonPrefixes = [], Contents = [\<lparr>Key = Some ''dir/x'', Key_LastModified = Some 0\<rparr>],
               IsTruncated = Some False, KeyCount = Some 1,
               out_ContinuationToken = None, NextContinuationToken = None\<rparr>
         else \<lparr>CommonPrefixes = [], Contents = [], IsTruncated = Some False, KeyCount = Some 0,
               out_ContinuationToken = None, NextContinuationToken = None\<rparr>),
      requests = []\<rparr>"

text \<open>A backend with the root prefix \<open>charts\<close> over a bucket holding one object,
  \<open>charts/old\<close>, with nothing failing.\<close>

definition charts_backend :: AmazonS3Backend where
  "charts_backend = \<lparr>Bucket = ''bucket'', Prefix = ''charts'', SSE = []\<rparr>"

definition charts_bucket :: S3 where
  "charts_bucket =
     \<lparr>objects = [''charts/old'' \<mapsto> \<lparr>Body = ''x'', Modified = 0\<rparr>],
      fault = (\<lambda>_. None),
      lister = (\<lambda>_ _. \<lparr>CommonPrefixes = [], Contents = [], IsTruncated = Some False, KeyCount = Some 0,
                         out_ContinuationToken = None, NextContinuationToken = None\<rparr>),
      requests = []\<rparr>"

text \<open>The same bucket, refusing the deletion of \<open>charts/old\<close>.\<close>

definition guarded_bucket :: S3 where
  "guarded_bucket =
     charts_bucket\<lparr>fault := (\<lambda>rq. if rq = DeleteObjectReq ''charts/old''
                                   then Some (AwsError ''AccessDenied'') else None)\<rparr>"

section \<open>The directory pager (S3 backend and local backend)\<close>

text \<open>The zero \<open>time.Time\<close>; instants are counted from it.\<close>

definition zeroTime :: Time where
  "zeroTime = 0"

text \<open>The fields the two page structs share; each struct extends them. A nil slice and
  an empty slice are both the empty list.\<close>

record ListOutput =
  prefix :: string
  limit :: int
  filesRead :: "Metadata list"
  directoriesRead :: "Metadata list"
  nextPageCalled :: bool
  isEOF :: bool

record s3ListObjectsFromDirectoryOutput = ListOutput +
  backend :: AmazonS3Backend
  continuationToken :: string

definition GetDirectories :: "'a ListOutput_scheme \<Rightarrow> Metadata list" where
  "GetDirectories l = directoriesRead l"

definition GetFiles :: "'a ListOutput_scheme \<Rightarrow> Metadata list" where
  "GetFiles l = filesRead l"

definition IsTruncated_page :: "'a ListOutput_scheme \<Rightarrow> bool" where
  "IsTruncated_page l = (\<not> isEOF l)"

text \<open>The path of a listed key: the backend's prefix stripped, a leading separator
  added when there is none.\<close>

definition listed_path :: "string \<Rightarrow> string \<Rightarrow> string" where
  "listed_path bprefix k =
     (let p = removePrefixFromObjectPath bprefix k
      in if \<not> HasPrefix p ''/'' then ''/'' @ p else p)"

text \<open>The loop over \<open>output.CommonPrefixes\<close>.\<close>

fun read_directories :: "string \<Rightarrow> string option list \<Rightarrow> Metadata list \<Rightarrow> Metadata list" where
  "read_directories bprefix [] acc = acc"
| "read_directories bprefix (d # ds) acc =
     read_directories bprefix ds
       (case d of
          None \<Rightarrow> acc
        | Some k \<Rightarrow>
            if k \<noteq> [] then
              (let p = listed_path bprefix k
               in if p \<noteq> [] \<and> p \<noteq> ''/''
                  then acc @ [\<lparr>Path = p, LastModified = zeroTime\<rparr>]
                  else acc)
            else acc)"

text \<open>The loop over \<open>output.Contents\<close>.\<close>

fun read_files :: "string \<Rightarrow> S3Content list \<Rightarrow> Metadata list \<Rightarrow> Metadata list" where
  "read_files bprefix [] acc = acc"
| "read_files bprefix (f # fs) acc =
     read_files bprefix fs
       (case Key f of
          None \<Rightarrow> acc
        | Some k \<Rightarrow>
            if k \<noteq> [] then
              (let p = listed_path bprefix k
               in if p \<noteq> [] \<and> p \<noteq> ''/''
                  then acc @ [\<lparr>Path = p,
                        LastModified = (case Key_LastModified f of Some t \<Rightarrow> t | None \<Rightarrow> zeroTime)\<rparr>]
                  else acc)
            else acc)"

text \<open>The listing request \<open>NextPage\<close> builds.\<close>

definition NextPage_request :: "s3ListObjectsFromDirectoryOutput \<Rightarrow> ListObjectsV2Input" where
  "NextPage_request l =
     \<lparr>in_Prefix = cleanPrefix (Join [Prefix (backend l), prefix l]) @ ''/'',
      in_Delimiter = Some ''/'',
      in_MaxKeys = Some (limit l),
      in_ContinuationToken = (if continuationToken l \<noteq> [] then Some (continuationToken l) else None)\<rparr>"

text \<open>\<open>NextPage\<close> returns the new page (or nil) and the error, and leaves the receiver
  \<open>l\<close> and the bucket as the call left them.\<close>

definition s3_NextPage ::
  "s3ListObjectsFromDirectoryOutput \<Rightarrow> S3 \<Rightarrow>
     (s3ListObjectsFromDirectoryOutput option \<times> error option) \<times> s3ListObjectsFromDirectoryOutput \<times> S3" where
  "s3_NextPage l w =
     (if nextPageCalled l
      then ((None, Some (PlainError ''you cannot call NextPage more than once'')), l, w)
      else
        let r = \<lparr>prefix = prefix l, limit = limit l, filesRead = [], directoriesRead = [],
                 nextPageCalled = False, isEOF = False,
                 backend = backend l, continuationToken = []\<rparr>
        in if isEOF l then ((Some (r\<lparr>isEOF := True\<rparr>), Some EOF), l, w)
           else
             (case Client_ListObjectsV2 w (NextPage_request l) of
                (Inl err, w1) \<Rightarrow> ((None, Some err), l, w1)
              | (Inr output, w1) \<Rightarrow>
                  let r1 = r\<lparr>continuationToken :=
                              (case NextContinuationToken output of Some t \<Rightarrow> t | None \<Rightarrow> [])\<rparr>;
                      r2 = r1\<lparr>directoriesRead :=
                              read_directories (Prefix (backend l)) (CommonPrefixes output) []\<rparr>;
                      r3 = r2\<lparr>filesRead := read_files (Prefix (backend l)) (Contents output) []\<rparr>;
                      r4 = r3\<lparr>isEOF := (case IsTruncated output of None \<Rightarrow> True | Some t \<Rightarrow> \<not> t)\<rparr>
                  in ((Some r4, if isEOF r4 then Some EOF else None), l\<lparr>nextPageCalled := True\<rparr>, w1)))"

definition s3_ListObjectsFromDirectory ::
  "AmazonS3Backend \<Rightarrow> S3 \<Rightarrow> string \<Rightarrow> int \<Rightarrow>
     (s3ListObjectsFromDirectoryOutput option \<times> error option) \<times> S3" where
  "s3_ListObjectsFromDirectory b w pre lim =
     (let output = \<lparr>prefix = pre, limit = lim, filesRead = [], directoriesRead = [],
                    nextPageCalled = False, isEOF = False, backend = b, continuationToken = []\<rparr>
      in case Client_HeadObject w (cleanPrefix (Join [Prefix b, pre])) of
           (None, w1) \<Rightarrow> ((None, Some ErrPrefixIsAnObject), w1)
         | (Some err, w1) \<Rightarrow>
             if aws_and_not_NotFound err then ((None, Some err), w1)
             else (case s3_NextPage output w1 of (res, l', w2) \<Rightarrow> (res, w2)))"

subsection \<open>The local file system\<close>

text \<open>
  What \<open>os.Open\<close>, \<open>Stat\<close> and \<open>ReadDir\<close> show of the file system: a path names nothing,
  a regular file, a directory with its entries (reading it may fail with an error once
  the entries are delivered), a node that cannot be opened, or one that opens and cannot
  be inspected. An open directory is the list of entries not read yet.
\<close>

record DirEntry =
  Name :: string
  IsDir :: bool

datatype FsNode =
    RegularFile
  | Directory "DirEntry list" "error option"
  | Denied error
  | StatFails error

type_synonym LocalFs = "string \<rightharpoonup> FsNode"

record osFile =
  node :: FsNode
  unread :: "DirEntry list"
  read_error :: "error option"

definition os_Open :: "LocalFs \<Rightarrow> string \<Rightarrow> error + osFile" where
  "os_Open fs name =
     (case fs name of
        None \<Rightarrow> Inl ErrNotExist
      | Some (Denied e) \<Rightarrow> Inl e
      | Some (Directory es re) \<Rightarrow> Inr \<lparr>node = Directory es re, unread = es, read_error = re\<rparr>
      | Some n \<Rightarrow> Inr \<lparr>node = n, unread = [], read_error = Some (PlainError ''not a directory'')\<rparr>)"

definition os_IsNotExist :: "error \<Rightarrow> bool" where
  "os_IsNotExist e = (e = ErrNotExist)"

text \<open>\<open>f.Stat()\<close> followed by \<open>fi.IsDir()\<close>.\<close>

definition Stat_IsDir :: "osFile \<Rightarrow> error + bool" where
  "Stat_IsDir f =
     (case node f of
        StatFails e \<Rightarrow> Inl e
      | Directory _ _ \<Rightarrow> Inr True
      | _ \<Rightarrow> Inr False)"

text \<open>
  \<open>(*os.File).ReadDir(n)\<close>: for \<open>n > 0\<close> at most \<open>n\<close> entries, and with no entry left the
  pending read error or \<open>io.EOF\<close>; for \<open>n \<le> 0\<close> all entries left, with the pending read
  error if there is one and a nil error otherwise. A nil file gives an error.
\<close>

definition ReadDir :: "osFile option \<Rightarrow> int \<Rightarrow> (DirEntry list \<times> error option) \<times> osFile option" where
  "ReadDir fo n =
     (case fo of
        None \<Rightarrow> (([], Some (PlainError ''invalid argument'')), None)
      | Some f \<Rightarrow>
          if 0 < n then
            (if unread f = []
             then (([], (case read_error f of Some e \<Rightarrow> Some e | None \<Rightarrow> Some EOF)), Some f)
             else ((take (nat n) (unread f), None), Some (f\<lparr>unread := drop (nat n) (unread f)\<rparr>)))
          else ((unread f, read_error f), Some (f\<lparr>unread := []\<rparr>)))"

definition errors_Is :: "error \<Rightarrow> error \<Rightarrow> bool" where
  "errors_Is err target = (err = target)"

record LocalFilesystemBackend =
  RootDirectory :: string

text \<open>The open directory is shared by a page and its successor; the model keeps it in
  the page and hands the file as read so far to both.\<close>

record localListObjectsFromDirectoryOutput = ListOutput +
  directory :: "osFile option"

text \<open>The loop over the entries read.\<close>

fun read_entries :: "string \<Rightarrow> DirEntry list \<Rightarrow> Metadata list \<times> Metadata list \<Rightarrow> Metadata list \<times> Metadata list" where
  "read_entries pre [] (ds, fs) = (ds, fs)"
| "read_entries pre (e # es) (ds, fs) =
     (let m = \<lparr>Path = Join [pre, Name e], LastModified = zeroTime\<rparr>
      in if IsDir e then read_entries pre es (ds @ [m], fs)
         else read_entries pre es (ds, fs @ [m]))"

definition local_NextPage ::
  "localListObjectsFromDirectoryOutput \<Rightarrow>
     (localListObjectsFromDirectoryOutput option \<times> error option) \<times> localListObjectsFromDirectoryOutput" where
  "local_NextPage l =
     (if nextPageCalled l
      then ((None, Some (PlainError ''you cannot call NextPage more than once'')), l)
      else
        let r = \<lparr>prefix = prefix l, limit = limit l, filesRead = [], directoriesRead = [],
                 nextPageCalled = False, isEOF = False, directory = directory l\<rparr>
        in if isEOF l then ((Some (r\<lparr>isEOF := True\<rparr>), Some EOF), l)
           else
             (case ReadDir (directory l) (limit l) of
                ((entries, err), f') \<Rightarrow>
                  let (ds, fs) = read_entries (prefix l) entries ([], []);
                      r1 = r\<lparr>directoriesRead := ds, filesRead := fs, directory := f'\<rparr>;
                      r2 = r1\<lparr>isEOF :=
                              ((0 < limit l \<and> err \<noteq> None \<and> errors_Is (the err) EOF)
                               \<or> (limit l \<le> 0 \<and> err = None))\<rparr>;
                      err' = (if isEOF r2 \<and> err = None then Some EOF else err)
                  in ((Some r2, err'), l\<lparr>nextPageCalled := True, directory := f'\<rparr>)))"

definition local_ListObjectsFromDirectory ::
  "LocalFilesystemBackend \<Rightarrow> LocalFs \<Rightarrow> string \<Rightarrow> int \<Rightarrow>
     localListObjectsFromDirectoryOutput option \<times> error option" where
  "local_ListObjectsFromDirectory b fs pre lim =
     (let output = \<lparr>prefix = pre, limit = lim, filesRead = [], directoriesRead = [],
                    nextPageCalled = False, isEOF = False, directory = None\<rparr>;
          fullPath = Join [RootDirectory b, pre]
      in case os_Open fs fullPath of
           Inl err \<Rightarrow>
             if os_IsNotExist err then (Some (output\<lparr>isEOF := True\<rparr>), None)
             else (None, Some err)
         | Inr f \<Rightarrow>
             (case Stat_IsDir f of
                Inl err \<Rightarrow> (None, Some err)
              | Inr isdir \<Rightarrow>
                  if \<not> isdir then (None, Some (PlainError ''prefix is not a directory''))
                  else fst (local_NextPage (output\<lparr>directory := Some f\<rparr>))))"

text \<open>The error of a second \<open>NextPage\<close> on a page that was advanced.\<close>

definition double_advance :: error where
  "double_advance = PlainError ''you cannot call NextPage more than once''"

text \<open>The metadata the pager makes of a path, and the keys of a listing that are
  present and not empty.\<close>

definition entry_of :: "string \<Rightarrow> Metadata" where
  "entry_of p = \<lparr>Path = p, LastModified = zeroTime\<rparr>"

definition present_keys :: "string option list \<Rightarrow> string list" where
  "present_keys ks = filter (\<lambda>k. k \<noteq> []) (List.map_filter id ks)"

text \<open>Examples. A bucket under the root prefix \<open>charts\<close> whose listing of \<open>charts/\<close>
  answers one common prefix and one key, complete; the first page of a listing of its
  root; a directory \<open>/srv\<close> holding the file \<open>index.yaml\<close> and the directory \<open>sub\<close>.\<close>

definition listing_backend :: AmazonS3Backend where
  "listing_backend = \<lparr>Bucket = ''bucket'', Prefix = ''charts'', SSE = []\<rparr>"

definition listing_bucket :: S3 where
  "listing_bucket =
     \<lparr>objects = [''charts/dir/a'' \<mapsto> \<lparr>Body = ''a'', Modified = 7\<rparr>,
                 ''charts/file.txt'' \<mapsto> \<lparr>Body = ''f'', Modified = 9\<rparr>],
      fault = (\<lambda>_. None),
      lister = (\<lambda>_ inp.
         if in_Prefix inp = ''charts/''
         then \<lparr>CommonPrefixes = [Some ''charts/dir/''],
               Contents = [\<lparr>Key = Some ''charts/file.txt'', Key_LastModified = Some 9\<rparr>],
               IsTruncated = Some False, KeyCount = Some 2,
               out_ContinuationToken = None, NextContinuationToken = None\<rparr>
         else \<lparr>CommonPrefixes = [], Contents = [], IsTruncated = Some False, KeyCount = Some 0,
               out_ContinuationToken = None, NextContinuationToken = None\<rparr>),
      requests = []\<rparr>"

definition fresh_page :: s3ListObjectsFromDirectoryOutput where
  "fresh_page = \<lparr>prefix = [], limit = 0, filesRead = [], directoriesRead = [],
                  nextPageCalled = False, isEOF = False,
                  backend = listing_backend, continuationToken = []\<rparr>"

definition srv_backend :: LocalFilesystemBackend where
  "srv_backend = \<lparr>RootDirectory = ''/srv''\<rparr>"

definition srv_fs :: LocalFs where
  "srv_fs = [''/srv'' \<mapsto> Directory [\<lparr>Name = ''index.yaml'', IsDir = False\<rparr>, \<lparr>Name = ''sub'', IsDir = True\<rparr>] None,
             ''/srv/index.yaml'' \<mapsto> RegularFile,
             ''/srv/sub'' \<mapsto> Directory [] None]"

definition exhausted_page :: localListObjectsFromDirectoryOutput where
  "exhausted_page = \<lparr>prefix = ''nowhere'', limit = 0, filesRead = [], directoriesRead = [],
                      nextPageCalled = False, isEOF = True, directory = None\<rparr>"

definition srv_page :: localListObjectsFromDirectoryOutput where
  "srv_page = \<lparr>prefix = ''sub'', limit = 0, filesRead = [], directoriesRead = [],
                nextPageCalled = False, isEOF = False,
                directory = Some \<lparr>node = Directory [\<lparr>Name = ''a.tgz'', IsDir = False\<rparr>,
                                                   \<lparr>Name = ''deep'', IsDir = True\<rparr>] None,
                                  unread = [\<lparr>Name = ''a.tgz'', IsDir = False\<rparr>,
                                            \<lparr>Name = ''deep'', IsDir = True\<rparr>],
                                  read_error = None\<rparr>\<rparr>"

section \<open>Conditional HTTP delivery (amazon.go)\<close>

subsection \<open>Library functions the handler calls\<close>

text \<open>
  \<open>strings.TrimSpace\<close>: leading and trailing white space removed, as \<open>unicode.IsSpace\<close>
  defines it: the six ASCII characters, and U+0085, U+00A0, U+1680, U+2000 to U+200A,
  U+2028, U+2029, U+202F, U+205F and U+3000 in their UTF-8 encodings.
\<close>

definition asciiSpace :: "char \<Rightarrow> bool" where
  "asciiSpace c = (c = CHR 0x09 \<or> c = CHR 0x0A \<or> c = CHR 0x0B \<or> c = CHR 0x0C \<or> c = CHR 0x0D \<or> c = CHR 0x20)"

definition unicode_spaces :: "string list" where
  "unicode_spaces =
     [[CHR 0xC2, CHR 0x85], [CHR 0xC2, CHR 0xA0], [CHR 0xE1, CHR 0x9A, CHR 0x80],
      [CHR 0xE2, CHR 0x80, CHR 0x80], [CHR 0xE2, CHR 0x80, CHR 0x81], [CHR 0xE2, CHR 0x80, CHR 0x82],
      [CHR 0xE2, CHR 0x80, CHR 0x83], [CHR 0xE2, CHR 0x80, CHR 0x84], [CHR 0xE2, CHR 0x80, CHR 0x85],
      [CHR 0xE2, CHR 0x80, CHR 0x86], [CHR 0xE2, CHR 0x80, CHR 0x87], [CHR 0xE2, CHR 0x80, CHR 0x88],
      [CHR 0xE2, CHR 0x80, CHR 0x89], [CHR 0xE2, CHR 0x80, CHR 0x8A], [CHR 0xE2, CHR 0x80, CHR 0xA8],
      [CHR 0xE2, CHR 0x80, CHR 0xA9], [CHR 0xE2, CHR 0x80, CHR 0xAF], [CHR 0xE2, CHR 0x81, CHR 0x9F],
      [CHR 0xE3, CHR 0x80, CHR 0x80]]"

fun trim_front :: "string list \<Rightarrow> string \<Rightarrow> string" where
  "trim_front us [] = []"
| "trim_front us (c # cs) =
     (if asciiSpace c then trim_front us cs
      else (case find (\<lambda>u. HasPrefix (c # cs) u) us of
              Some u \<Rightarrow> trim_front us (drop (length u - 1) cs)
            | None \<Rightarrow> c # cs))"

definition TrimSpace :: "string \<Rightarrow> string" where
  "TrimSpace s = rev (trim_front (map rev unicode_spaces) (rev (trim_front unicode_spaces s)))"

text \<open>
  \<open>strconv.ParseInt(s, 10, 64)\<close>: an optional sign and at least one decimal digit, nothing
  else; an error (here \<open>None\<close>) on any other text and on a value outside 64 bits.
\<close>

definition digit_val :: "char \<Rightarrow> int option" where
  "digit_val c =
     (if 48 \<le> (of_char c :: int) \<and> (of_char c :: int) \<le> 57 then Some (of_char c - 48) else None)"

fun parse_digits :: "string \<Rightarrow> int \<Rightarrow> int option" where
  "parse_digits [] acc = Some acc"
| "parse_digits (c # cs) acc =
     (case digit_val c of
        None \<Rightarrow> None
      | Some d \<Rightarrow> parse_digits cs (acc * 10 + d))"

definition ParseInt64 :: "string \<Rightarrow> int option" where
  "ParseInt64 s =
     (if s = [] then None
      else
        let neg = (hd s = CHR ''-'');
            ds = (if hd s = CHR ''+'' \<or> hd s = CHR ''-'' then tl s else s)
        in if ds = [] then None
           else (case parse_digits ds 0 of
                   None \<Rightarrow> None
                 | Some un \<Rightarrow>
                     if \<not> neg \<and> 2 ^ 63 \<le> un then None
                     else if neg \<and> 2 ^ 63 < un then None
                     else Some (if neg then - un else un)))"

text \<open>\<open>strconv.FormatInt(n, 10)\<close>.\<close>

fun format_nat :: "nat \<Rightarrow> string" where
  "format_nat n = (if n < 10 then [char_of (48 + n)] else format_nat (n div 10) @ [char_of (48 + n mod 10)])"

definition FormatInt :: "int \<Rightarrow> string" where
  "FormatInt n = (if n < 0 then CHR ''-'' # format_nat (nat (- n)) else format_nat (nat n))"

subsection \<open>Request, backend answer, handler\<close>

text \<open>The request as the handler reads it: the method and four header values, empty
  when the header is absent.\<close>

record Request =
  Method :: string
  If_Modified_Since :: string
  If_Match :: string
  If_None_Match :: string
  If_Unmodified_Since :: string

record GetObjectInput =
  in_Bucket :: string
  in_Key :: string
  IfModifiedSince :: "Time option"
  IfUnmodifiedSince :: "Time option"
  IfMatch :: "string option"
  IfNoneMatch :: "string option"

text \<open>The answer of \<open>GetObject\<close>. \<open>Body_bytes\<close> is what reading the body delivers and
  \<open>Body_error\<close> whether the read then fails.\<close>

record GetObjectOutput =
  CacheControl :: "string option"
  Expires :: "string option"
  ContentDisposition :: "string option"
  ContentEncoding :: "string option"
  ContentLanguage :: "string option"
  ContentLength :: "int option"
  ContentRange :: "string option"
  ContentType :: "string option"
  ETag :: "string option"
  Object_LastModified :: "Time option"
  Body_bytes :: string
  Body_error :: bool

text \<open>What the handler does not compute itself: \<open>http.ParseTime\<close>, the formatting of a
  time as an HTTP date, and the backend's answer to the read.\<close>

record HttpEnv =
  ParseTime :: "string \<Rightarrow> Time option"
  FormatHttpTime :: "Time \<Rightarrow> string"
  GetObject :: "GetObjectInput \<Rightarrow> error + GetObjectOutput"

text \<open>The calls the handler makes on its \<open>http.ResponseWriter\<close>, in order: a header
  added, the status written, the body copied (\<open>io.Copy\<close>, with the bytes it wrote and
  whether it returned an error).\<close>

datatype WriterCall =
    Header_Add string string
  | WriteHeader int
  | Copy string bool

text \<open>A conditional date header: absent, malformed (\<open>None\<close>), or parsed.\<close>

definition parse_condition :: "(string \<Rightarrow> Time option) \<Rightarrow> string \<Rightarrow> Time option option" where
  "parse_condition pt s =
     (if s \<noteq> [] then (case pt s of None \<Rightarrow> None | Some t \<Rightarrow> Some (Some t)) else Some None)"

definition GetObject_input :: "AmazonS3Backend \<Rightarrow> Request \<Rightarrow> string \<Rightarrow> Time option \<Rightarrow> Time option \<Rightarrow> GetObjectInput" where
  "GetObject_input b r path ifModifiedSince ifUnmodifiedSince =
     \<lparr>in_Bucket = Bucket b,
      in_Key = cleanPrefix (Join [Prefix b, path]),
      IfModifiedSince = ifModifiedSince,
      IfUnmodifiedSince = ifUnmodifiedSince,
      IfMatch = (if If_Match r \<noteq> [] then Some (If_Match r) else None),
      IfNoneMatch = (if If_None_Match r \<noteq> [] then Some (If_None_Match r) else None)\<rparr>"

definition add_header :: "string \<Rightarrow> string option \<Rightarrow> WriterCall list" where
  "add_header name v = (case v of None \<Rightarrow> [] | Some x \<Rightarrow> [Header_Add name x])"

text \<open>The headers, in the order the handler adds them.\<close>

definition response_headers :: "HttpEnv \<Rightarrow> GetObjectOutput \<Rightarrow> WriterCall list" where
  "response_headers env s3Result =
     add_header ''Cache-Control'' (CacheControl s3Result)
     @ add_header ''Expires'' (Expires s3Result)
     @ add_header ''Content-Disposition'' (ContentDisposition s3Result)
     @ add_header ''Content-Encoding'' (ContentEncoding s3Result)
     @ add_header ''Content-Language'' (ContentLanguage s3Result)
     @ add_header ''Content-Length'' (map_option FormatInt (ContentLength s3Result))
     @ add_header ''Content-Range'' (ContentRange s3Result)
     @ add_header ''Content-Type'' (ContentType s3Result)
     @ add_header ''ETag'' (ETag s3Result)
     @ add_header ''Last-Modified'' (map_option (FormatHttpTime env) (Object_LastModified s3Result))"

text \<open>\<open>httpStatus\<close>: 200, and 206 inside the nested tests on the content range.\<close>

definition httpStatus :: "GetObjectOutput \<Rightarrow> int" where
  "httpStatus s3Result =
     (case ContentRange s3Result of
        None \<Rightarrow> 200
      | Some cr \<Rightarrow>
          if 0 < length cr \<and> ContentLength s3Result \<noteq> None then
            (let s = Split_slash cr
             in if 1 < length s then
                  (let totalSizeString = TrimSpace (s ! 1)
                   in case ParseInt64 totalSizeString of
                        Some totalSize \<Rightarrow>
                          if Some totalSize \<noteq> ContentLength s3Result then 206 else 200
                      | None \<Rightarrow> 200)
                else 200)
          else 200)"

definition error_status :: "error \<Rightarrow> int" where
  "error_status err =
     (case err of
        AwsError code \<Rightarrow>
          if code = ''NoSuchKey'' then 404
          else if code = ''NotModified'' then 304
          else if code = ''PreconditionFailed'' then 412
          else 400
      | _ \<Rightarrow> 400)"

definition HandleHttpFileDownload :: "HttpEnv \<Rightarrow> AmazonS3Backend \<Rightarrow> Request \<Rightarrow> string \<Rightarrow> WriterCall list" where
  "HandleHttpFileDownload env b r path =
     (case parse_condition (ParseTime env) (If_Modified_Since r) of
        None \<Rightarrow> [WriteHeader 400]
      | Some ifModifiedSince \<Rightarrow>
          (case parse_condition (ParseTime env) (If_Unmodified_Since r) of
             None \<Rightarrow> [WriteHeader 400]
           | Some ifUnmodifiedSince \<Rightarrow>
               (case GetObject env (GetObject_input b r path ifModifiedSince ifUnmodifiedSince) of
                  Inl err \<Rightarrow> [WriteHeader (error_status err)]
                | Inr s3Result \<Rightarrow>
                    if Method r \<noteq> ''HEAD'' then
                      (if Body_error s3Result
                       then response_headers env s3Result
                            @ [Copy (Body_bytes s3Result) True, WriteHeader 500]
                       else response_headers env s3Result
                            @ [Copy (Body_bytes s3Result) False, WriteHeader (httpStatus s3Result)])
                    else response_headers env s3Result @ [WriteHeader (httpStatus s3Result)])))"

subsection \<open>The response a writer sends\<close>

text \<open>
  The contract of \<open>http.ResponseWriter\<close>, from the documentation of \<open>net/http\<close>: the
  first \<open>WriteHeader\<close> fixes the status and sends the headers added so far; a \<open>Write\<close>
  before any \<open>WriteHeader\<close> first does \<open>WriteHeader(200)\<close>; a later \<open>WriteHeader\<close> changes
  nothing. \<open>io.Copy\<close> writes the bytes it copied, when there are any.
\<close>

record Response =
  wroteHeader :: bool
  status :: int
  sent_headers :: "(string \<times> string) list"
  pending_headers :: "(string \<times> string) list"
  body :: string

definition write_header :: "int \<Rightarrow> Response \<Rightarrow> Response" where
  "write_header code w =
     (if wroteHeader w then w
      else w\<lparr>wroteHeader := True, status := code, sent_headers := pending_headers w\<rparr>)"

fun writer_call :: "Response \<Rightarrow> WriterCall \<Rightarrow> Response" where
  "writer_call w (Header_Add k v) = w\<lparr>pending_headers := pending_headers w @ [(k, v)]\<rparr>"
| "writer_call w (WriteHeader code) = write_header code w"
| "writer_call w (Copy bytes failed) =
     (if bytes = [] then w
      else (write_header 200 w)\<lparr>body := body (write_header 200 w) @ bytes\<rparr>)"

definition respond :: "WriterCall list \<Rightarrow> Response" where
  "respond calls =
     foldl writer_call
       \<lparr>wroteHeader = False, status = 200, sent_headers = [], pending_headers = [], body = []\<rparr> calls"

text \<open>The total-size part of a content range, read off the header value: the text
  between the first and the second separator, trimmed and parsed.\<close>

definition total_size :: "string \<Rightarrow> int option" where
  "total_size cr =
     (if CHR ''/'' \<in> set cr
      then ParseInt64 (TrimSpace (takeWhile (\<lambda>c. c \<noteq> CHR ''/'')
                                   (tl (dropWhile (\<lambda>c. c \<noteq> CHR ''/'') cr))))
      else None)"

text \<open>Examples: a ranged answer of one hundred bytes out of five hundred, and a request
  for it.\<close>

definition http_env :: "GetObjectOutput \<Rightarrow> HttpEnv" where
  "http_env out = \<lparr>ParseTime = (\<lambda>_. None), FormatHttpTime = (\<lambda>_. []), GetObject = (\<lambda>_. Inr out)\<rparr>"

definition ranged_answer :: GetObjectOutput where
  "ranged_answer =
     \<lparr>CacheControl = None, Expires = None, ContentDisposition = None, ContentEncoding = None,
      ContentLanguage = None, ContentLength = Some 100, ContentRange = Some ''bytes 0-99/500'',
      ContentType = None, ETag = None, Object_LastModified = None,
      Body_bytes = replicate 100 (CHR ''x''), Body_error = False\<rparr>"

definition request_of :: "string \<Rightarrow> Request" where
  "request_of m = \<lparr>Method = m, If_Modified_Since = [], If_Match = [], If_None_Match = [],
                   If_Unmodified_Since = []\<rparr>"

section \<open>Properties of GetObjectSliceDiff\<close>

lemma find_app:
  "find P (xs @ ys) = (case find P xs of Some x \<Rightarrow> Some x | None \<Rightarrow> find P ys)"
  by (induction xs) auto

lemma find_Some_set: "find P xs = Some x \<Longrightarrow> x \<in> set xs \<and> P x"
  by (induction xs) (auto split: if_splits)

lemma index_objects_lookup:
  "index_objects xs m k = (case current_of xs k of Some x \<Rightarrow> Some x | None \<Rightarrow> m k)"
  by (induction xs arbitrary: m) (auto simp: current_of_def find_app split: option.splits)

lemma index_objects_empty: "index_objects xs Map.empty = current_of xs"
  by (rule ext) (simp add: index_objects_lookup split: option.splits)

lemma current_of_None: "current_of xs k = None \<longleftrightarrow> k \<notin> paths_of xs"
  by (auto simp: current_of_def paths_of_def find_None_iff)

lemma current_of_Some: "current_of xs k = Some c \<Longrightarrow> c \<in> set xs \<and> Path c = k"
  using find_Some_set [of "\<lambda>x. Path x = k" "rev xs" c] by (simp add: current_of_def)

text \<open>In a slice without repeated paths the object held for a path is simply the
  object of that path.\<close>

lemma current_of_distinct:
  "distinct (map Path xs) \<Longrightarrow> current_of xs k = Some c \<longleftrightarrow> c \<in> set xs \<and> Path c = k"
proof (induction xs rule: rev_induct)
  case Nil
  then show ?case by (simp add: current_of_def)
next
  case (snoc x xs)
  then show ?case by (auto simp: current_of_def)
qed

lemma set_map_filter_iff: "y \<in> set (List.map_filter f xs) \<longleftrightarrow> (\<exists>x \<in> set xs. f x = Some y)"
  by (induction xs) (auto simp: map_filter_simps split: option.splits)

lemma scan_prev_Updated:
  "Updated (scan_prev cos tol ps d) = Updated d @ List.map_filter (upd_of cos tol) ps"
  by (induction ps arbitrary: d) (auto simp: upd_of_def map_filter_simps split: option.splits)

lemma scan_prev_Removed:
  "Removed (scan_prev cos tol ps d) = Removed d @ filter (\<lambda>p. cos (Path p) = None) ps"
  by (induction ps arbitrary: d) (auto split: option.splits)

lemma scan_prev_Added: "Added (scan_prev cos tol ps d) = Added d"
  by (induction ps arbitrary: d) (auto split: option.splits)

lemma scan_curr_Added:
  "Added (scan_curr pos cs d) = Added d @ filter (\<lambda>c. pos (Path c) = None) cs"
  by (induction cs arbitrary: d) (auto split: option.splits)

lemma scan_curr_Removed: "Removed (scan_curr pos cs d) = Removed d"
  by (induction cs arbitrary: d) (auto split: option.splits)

lemma scan_curr_Updated: "Updated (scan_curr pos cs d) = Updated d"
  by (induction cs arbitrary: d) (auto split: option.splits)

text \<open>The three lists, in closed form and in the order the loops append them.\<close>

lemma diff_Removed:
  "Removed (GetObjectSliceDiff prev cur tol) = filter (\<lambda>p. Path p \<notin> paths_of cur) prev"
  by (simp add: GetObjectSliceDiff_def Let_def scan_curr_Removed scan_prev_Removed
      index_objects_empty current_of_None)

lemma diff_Added:
  "Added (GetObjectSliceDiff prev cur tol) = filter (\<lambda>c. Path c \<notin> paths_of prev) cur"
  by (simp add: GetObjectSliceDiff_def Let_def scan_curr_Added scan_prev_Added
      index_objects_empty current_of_None)

lemma diff_Updated:
  "Updated (GetObjectSliceDiff prev cur tol) = List.map_filter (upd_of (current_of cur) tol) prev"
  by (simp add: GetObjectSliceDiff_def Let_def scan_curr_Updated scan_prev_Updated
      index_objects_empty)

lemma diff_Change:
  "Change (GetObjectSliceDiff prev cur tol) \<longleftrightarrow>
     Removed (GetObjectSliceDiff prev cur tol) \<noteq> [] \<or> Added (GetObjectSliceDiff prev cur tol) \<noteq> []
     \<or> Updated (GetObjectSliceDiff prev cur tol) \<noteq> []"
  by (auto simp add: GetObjectSliceDiff_def Let_def)

lemma in_diff_Updated:
  "c \<in> set (Updated (GetObjectSliceDiff prev cur tol)) \<longleftrightarrow>
     (\<exists>p \<in> set prev. current_of cur (Path p) = Some c \<and> tol < Time_Sub (LastModified c) (LastModified p))"
  by (auto simp: diff_Updated set_map_filter_iff upd_of_def split: option.splits if_splits)

lemma Removed_paths:
  "paths_of (Removed (GetObjectSliceDiff prev cur tol)) \<subseteq> paths_of prev - paths_of cur"
  by (auto simp: diff_Removed paths_of_def)

lemma Added_paths:
  "paths_of (Added (GetObjectSliceDiff prev cur tol)) \<subseteq> paths_of cur - paths_of prev"
  by (auto simp: diff_Added paths_of_def)

lemma Updated_paths:
  "paths_of (Updated (GetObjectSliceDiff prev cur tol)) \<subseteq> paths_of prev \<inter> paths_of cur"
  by (auto simp: paths_of_def in_diff_Updated dest!: current_of_Some)

lemma unchanged_path:
  assumes c: "current_of cur k = Some c"
    and p: "k \<in> paths_of prev"
    and le: "\<forall>p \<in> set prev. Path p = k \<longrightarrow> Time_Sub (LastModified c) (LastModified p) \<le> tol"
  shows "k \<notin> paths_of (Removed (GetObjectSliceDiff prev cur tol))
           \<union> paths_of (Added (GetObjectSliceDiff prev cur tol))
           \<union> paths_of (Updated (GetObjectSliceDiff prev cur tol))"
proof -
  have kc: "k \<in> paths_of cur"
    using c current_of_None [of cur k] by auto
  have r: "k \<notin> paths_of (Removed (GetObjectSliceDiff prev cur tol))"
    using Removed_paths [of prev cur tol] kc by blast
  have a: "k \<notin> paths_of (Added (GetObjectSliceDiff prev cur tol))"
    using Added_paths [of prev cur tol] p by blast
  have u: "k \<notin> paths_of (Updated (GetObjectSliceDiff prev cur tol))"
  proof
    assume "k \<in> paths_of (Updated (GetObjectSliceDiff prev cur tol))"
    then obtain c' where c': "c' \<in> set (Updated (GetObjectSliceDiff prev cur tol))" "Path c' = k"
      by (auto simp: paths_of_def)
    then obtain q where q: "q \<in> set prev" "current_of cur (Path q) = Some c'"
        "tol < Time_Sub (LastModified c') (LastModified q)"
      by (auto simp: in_diff_Updated)
    from q(2) have "Path q = Path c'"
      using current_of_Some by metis
    with c' c q show False
      using le by force
  qed
  from r a u show ?thesis by simp
qed

text \<open>
  C1 (as amended). For all slices and every tolerance, an object \<open>c\<close> is in \<open>Updated\<close>
  exactly when some previous object \<open>p\<close> has a path for which the current slice holds
  \<open>c\<close>, and \<open>c.LastModified.Sub(p.LastModified)\<close> is strictly greater than the tolerance.
  A path present on both sides whose delta is at most the tolerance (for every previous
  object of that path) is in none of the three lists; for a tolerance that is not
  negative this covers every zero or negative delta.
\<close>

theorem GetObjectSliceDiff_updated:
  "(c \<in> set (Updated (GetObjectSliceDiff prev cur tol)) \<longleftrightarrow>
      (\<exists>p \<in> set prev. current_of cur (Path p) = Some c
          \<and> tol < Time_Sub (LastModified c) (LastModified p)))
   \<and> (\<forall>k c'. current_of cur k = Some c' \<and> k \<in> paths_of prev
          \<and> (\<forall>p \<in> set prev. Path p = k \<longrightarrow> Time_Sub (LastModified c') (LastModified p) \<le> tol)
        \<longrightarrow> k \<notin> paths_of (Removed (GetObjectSliceDiff prev cur tol))
                 \<union> paths_of (Added (GetObjectSliceDiff prev cur tol))
                 \<union> paths_of (Updated (GetObjectSliceDiff prev cur tol)))
   \<and> (0 \<le> tol \<longrightarrow>
        (\<forall>k c'. current_of cur k = Some c' \<and> k \<in> paths_of prev
          \<and> (\<forall>p \<in> set prev. Path p = k \<longrightarrow> Time_Sub (LastModified c') (LastModified p) \<le> 0)
        \<longrightarrow> k \<notin> paths_of (Removed (GetObjectSliceDiff prev cur tol))
                 \<union> paths_of (Added (GetObjectSliceDiff prev cur tol))
                 \<union> paths_of (Updated (GetObjectSliceDiff prev cur tol))))"
proof (intro conjI allI impI)
  show "c \<in> set (Updated (GetObjectSliceDiff prev cur tol)) \<longleftrightarrow>
      (\<exists>p \<in> set prev. current_of cur (Path p) = Some c
          \<and> tol < Time_Sub (LastModified c) (LastModified p))"
    by (rule in_diff_Updated)
next
  fix k c'
  assume "current_of cur k = Some c' \<and> k \<in> paths_of prev
          \<and> (\<forall>p \<in> set prev. Path p = k \<longrightarrow> Time_Sub (LastModified c') (LastModified p) \<le> tol)"
  then show "k \<notin> paths_of (Removed (GetObjectSliceDiff prev cur tol))
                 \<union> paths_of (Added (GetObjectSliceDiff prev cur tol))
                 \<union> paths_of (Updated (GetObjectSliceDiff prev cur tol))"
    using unchanged_path [of cur k c' prev tol] by blast
next
  fix k c'
  assume t: "0 \<le> tol"
    and h: "current_of cur k = Some c' \<and> k \<in> paths_of prev
          \<and> (\<forall>p \<in> set prev. Path p = k \<longrightarrow> Time_Sub (LastModified c') (LastModified p) \<le> 0)"
  from t h have "\<forall>p \<in> set prev. Path p = k \<longrightarrow> Time_Sub (LastModified c') (LastModified p) \<le> tol"
    by force
  with h show "k \<notin> paths_of (Removed (GetObjectSliceDiff prev cur tol))
                 \<union> paths_of (Added (GetObjectSliceDiff prev cur tol))
                 \<union> paths_of (Updated (GetObjectSliceDiff prev cur tol))"
    using unchanged_path [of cur k c' prev tol] by blast
qed

text \<open>Objects five seconds apart: updated under a tolerance of one second, in no list
  under a tolerance of ten; and, the older one being the current one, in no list under
  a tolerance of zero.\<close>

theorem GetObjectSliceDiff_updated_witness:
  "\<lparr>Path = ''a'', LastModified = 5000000000, Content = ''''\<rparr>
     \<in> set (Updated (GetObjectSliceDiff
         [\<lparr>Path = ''a'', LastModified = 0, Content = ''''\<rparr>]
         [\<lparr>Path = ''a'', LastModified = 5000000000, Content = ''''\<rparr>] 1000000000))
   \<and> ''a'' \<notin> paths_of (Removed (GetObjectSliceDiff
         [\<lparr>Path = ''a'', LastModified = 0, Content = ''''\<rparr>]
         [\<lparr>Path = ''a'', LastModified = 5000000000, Content = ''''\<rparr>] 10000000000))
       \<union> paths_of (Added (GetObjectSliceDiff
         [\<lparr>Path = ''a'', LastModified = 0, Content = ''''\<rparr>]
         [\<lparr>Path = ''a'', LastModified = 5000000000, Content = ''''\<rparr>] 10000000000))
       \<union> paths_of (Updated (GetObjectSliceDiff
         [\<lparr>Path = ''a'', LastModified = 0, Content = ''''\<rparr>]
         [\<lparr>Path = ''a'', LastModified = 5000000000, Content = ''''\<rparr>] 10000000000))
   \<and> ''a'' \<notin> paths_of (Removed (GetObjectSliceDiff
         [\<lparr>Path = ''a'', LastModified = 5000000000, Content = ''''\<rparr>]
         [\<lparr>Path = ''a'', LastModified = 0, Content = ''''\<rparr>] 0))
       \<union> paths_of (Added (GetObjectSliceDiff
         [\<lparr>Path = ''a'', LastModified = 5000000000, Content = ''''\<rparr>]
         [\<lparr>Path = ''a'', LastModified = 0, Content = ''''\<rparr>] 0))
       \<union> paths_of (Updated (GetObjectSliceDiff
         [\<lparr>Path = ''a'', LastModified = 5000000000, Content = ''''\<rparr>]
         [\<lparr>Path = ''a'', LastModified = 0, Content = ''''\<rparr>] 0))"
proof -
  let ?p = "\<lparr>Path = ''a'', LastModified = 0, Content = ''''\<rparr>"
  let ?c = "\<lparr>Path = ''a'', LastModified = 5000000000, Content = ''''\<rparr>"
  have cur: "current_of [?c] ''a'' = Some ?c"
    by (simp add: current_of_def)
  have sub: "Time_Sub 5000000000 0 = 5000000000"
    by (simp add: Time_Sub_def maxDuration_def minDuration_def)
  have pp: "''a'' \<in> paths_of [?p]"
    by (simp add: paths_of_def)
  have one: "?c \<in> set (Updated (GetObjectSliceDiff [?p] [?c] 1000000000))"
    using GetObjectSliceDiff_updated [of ?c "[?p]" "[?c]" 1000000000] cur sub by simp
  have two: "''a'' \<notin> paths_of (Removed (GetObjectSliceDiff [?p] [?c] 10000000000))
       \<union> paths_of (Added (GetObjectSliceDiff [?p] [?c] 10000000000))
       \<union> paths_of (Updated (GetObjectSliceDiff [?p] [?c] 10000000000))"
    using GetObjectSliceDiff_updated [of ?c "[?p]" "[?c]" 10000000000] cur sub pp by simp
  have cur': "current_of [?p] ''a'' = Some ?p"
    by (simp add: current_of_def)
  have sub': "Time_Sub 0 5000000000 = - 5000000000"
    by (simp add: Time_Sub_def maxDuration_def minDuration_def)
  have pp': "''a'' \<in> paths_of [?c]"
    by (simp add: paths_of_def)
  have "(0::int) \<le> 0
      \<and> current_of [?p] ''a'' = Some ?p \<and> ''a'' \<in> paths_of [?c]
      \<and> (\<forall>q \<in> set [?c]. Path q = ''a'' \<longrightarrow> Time_Sub (LastModified ?p) (LastModified q) \<le> 0)"
    using cur' sub' pp' by simp
  then have three: "''a'' \<notin> paths_of (Removed (GetObjectSliceDiff [?c] [?p] 0))
       \<union> paths_of (Added (GetObjectSliceDiff [?c] [?p] 0))
       \<union> paths_of (Updated (GetObjectSliceDiff [?c] [?p] 0))"
    using GetObjectSliceDiff_updated [of ?p "[?c]" "[?p]" 0, THEN conjunct2, THEN conjunct2]
    by blast
  from one two three show ?thesis by blast
qed

text \<open>With a negative tolerance a zero delta counts as an update: the same object on
  both sides, one nanosecond of negative tolerance.\<close>

theorem GetObjectSliceDiff_negative_tolerance:
  "Time_Sub 0 0 = 0
   \<and> Updated (GetObjectSliceDiff
        [\<lparr>Path = ''a'', LastModified = 0, Content = ''''\<rparr>]
        [\<lparr>Path = ''a'', LastModified = 0, Content = ''''\<rparr>] (- 1))
      = [\<lparr>Path = ''a'', LastModified = 0, Content = ''''\<rparr>]
   \<and> Change (GetObjectSliceDiff
        [\<lparr>Path = ''a'', LastModified = 0, Content = ''''\<rparr>]
        [\<lparr>Path = ''a'', LastModified = 0, Content = ''''\<rparr>] (- 1))"
  by (simp add: GetObjectSliceDiff_def Time_Sub_def maxDuration_def minDuration_def)

text \<open>
  C9. For all slices and every tolerance, no path is in two of the three lists
  \<open>Removed\<close>, \<open>Added\<close>, \<open>Updated\<close>.
\<close>

theorem GetObjectSliceDiff_exclusive:
  "paths_of (Removed (GetObjectSliceDiff prev cur tol)) \<inter> paths_of (Added (GetObjectSliceDiff prev cur tol)) = {} \<and>
   paths_of (Removed (GetObjectSliceDiff prev cur tol)) \<inter> paths_of (Updated (GetObjectSliceDiff prev cur tol)) = {} \<and>
   paths_of (Added (GetObjectSliceDiff prev cur tol)) \<inter> paths_of (Updated (GetObjectSliceDiff prev cur tol)) = {}"
  using Removed_paths [of prev cur tol] Added_paths [of prev cur tol] Updated_paths [of prev cur tol]
  by blast

text \<open>An example of a removal and an addition: \<open>a\<close> removed, \<open>c\<close> added,
  \<open>b\<close> unchanged, and the three path sets are disjoint.\<close>

theorem GetObjectSliceDiff_exclusive_witness:
  "paths_of (Removed (GetObjectSliceDiff
       [\<lparr>Path = ''a'', LastModified = 0, Content = ''''\<rparr>, \<lparr>Path = ''b'', LastModified = 0, Content = ''''\<rparr>]
       [\<lparr>Path = ''b'', LastModified = 0, Content = ''''\<rparr>, \<lparr>Path = ''c'', LastModified = 0, Content = ''''\<rparr>] 0)) = {''a''}
   \<and> paths_of (Added (GetObjectSliceDiff
       [\<lparr>Path = ''a'', LastModified = 0, Content = ''''\<rparr>, \<lparr>Path = ''b'', LastModified = 0, Content = ''''\<rparr>]
       [\<lparr>Path = ''b'', LastModified = 0, Content = ''''\<rparr>, \<lparr>Path = ''c'', LastModified = 0, Content = ''''\<rparr>] 0)) = {''c''}
   \<and> paths_of (Removed (GetObjectSliceDiff
       [\<lparr>Path = ''a'', LastModified = 0, Content = ''''\<rparr>, \<lparr>Path = ''b'', LastModified = 0, Content = ''''\<rparr>]
       [\<lparr>Path = ''b'', LastModified = 0, Content = ''''\<rparr>, \<lparr>Path = ''c'', LastModified = 0, Content = ''''\<rparr>] 0))
     \<inter> paths_of (Added (GetObjectSliceDiff
       [\<lparr>Path = ''a'', LastModified = 0, Content = ''''\<rparr>, \<lparr>Path = ''b'', LastModified = 0, Content = ''''\<rparr>]
       [\<lparr>Path = ''b'', LastModified = 0, Content = ''''\<rparr>, \<lparr>Path = ''c'', LastModified = 0, Content = ''''\<rparr>] 0)) = {}"
  using GetObjectSliceDiff_exclusive
    [of "[\<lparr>Path = ''a'', LastModified = 0, Content = ''''\<rparr>, \<lparr>Path = ''b'', LastModified = 0, Content = ''''\<rparr>]"
        "[\<lparr>Path = ''b'', LastModified = 0, Content = ''''\<rparr>, \<lparr>Path = ''c'', LastModified = 0, Content = ''''\<rparr>]" 0]
  by (simp add: diff_Removed diff_Added paths_of_def)

section \<open>Properties of the path rules\<close>

lemma Split_slash_nonempty: "Split_slash s \<noteq> []"
  by (induction s) (auto split: list.splits)

lemma Split_slash_noslash: "e \<in> set (Split_slash s) \<Longrightarrow> CHR ''/'' \<notin> set e"
  by (induction s arbitrary: e) (auto split: list.splits if_splits)

lemma Split_slash_app: "Split_slash (a @ CHR ''/'' # b) = Split_slash a @ Split_slash b"
  by (induction a) (auto split: list.splits simp: Split_slash_nonempty)

lemma Join_Split: "Join_slash (Split_slash s) = s"
proof (induction s)
  case Nil
  then show ?case by simp
next
  case (Cons c cs)
  then show ?case
    by (cases "Split_slash cs"; cases "tl (Split_slash cs)") (auto simp: Split_slash_nonempty)
qed

lemma Split_single: "CHR ''/'' \<notin> set e \<Longrightarrow> Split_slash e = [e]"
  by (induction e) (auto)

lemma Split_noslash_app: "CHR ''/'' \<notin> set e \<Longrightarrow> Split_slash (e @ CHR ''/'' # b) = e # Split_slash b"
  by (simp add: Split_slash_app Split_single)

lemma Split_Join: "es \<noteq> [] \<Longrightarrow> \<forall>e \<in> set es. CHR ''/'' \<notin> set e \<Longrightarrow> Split_slash (Join_slash es) = es"
proof (induction es rule: Join_slash.induct)
  case 1
  then show ?case by simp
next
  case (2 e)
  then show ?case by (simp add: Split_single)
next
  case (3 e f es)
  then show ?case by (simp add: Split_noslash_app)
qed

lemma Join_slash_app:
  "xs \<noteq> [] \<Longrightarrow> ys \<noteq> [] \<Longrightarrow> Join_slash (xs @ ys) = Join_slash xs @ CHR ''/'' # Join_slash ys"
proof (induction xs rule: Join_slash.induct)
  case 1
  then show ?case by simp
next
  case (2 e)
  then show ?case by (cases ys) auto
next
  case (3 e f es)
  then show ?case by simp
qed

lemma clean_plain: "list_all plain_elem es \<Longrightarrow> foldl (clean_step r) S es = rev es @ S"
  by (induction es arbitrary: S) (auto simp: clean_step_def plain_elem_def)

lemma dotdot_stays: "''..'' \<in> set S \<Longrightarrow> ''..'' \<in> set (foldl (clean_step False) S es)"
proof (induction es arbitrary: S)
  case Nil
  then show ?case by simp
next
  case (Cons e es)
  have "''..'' \<in> set (clean_step False S e)"
    using Cons.prems by (cases S) (auto simp: clean_step_def)
  then show ?case using Cons.IH by simp
qed

lemma clean_on_top:
  "''..'' \<notin> set (foldl (clean_step False) S es) \<Longrightarrow>
     foldl (clean_step False) (S @ B) es = foldl (clean_step False) S es @ B"
proof (induction es arbitrary: S)
  case Nil
  then show ?case by simp
next
  case (Cons e es)
  have nd: "''..'' \<notin> set (clean_step False S e)"
    using Cons.prems dotdot_stays [of "clean_step False S e" es] by auto
  have step: "clean_step False (S @ B) e = clean_step False S e @ B"
    using nd by (cases S) (auto simp: clean_step_def split: if_splits)
  show ?case
    using Cons.IH [of "clean_step False S e"] Cons.prems step by simp
qed

lemma clean_step_elems:
  "\<forall>x \<in> set S. x \<noteq> [] \<and> CHR ''/'' \<notin> set x \<Longrightarrow> CHR ''/'' \<notin> set e \<Longrightarrow>
     \<forall>x \<in> set (clean_step r S e). x \<noteq> [] \<and> CHR ''/'' \<notin> set x"
  by (cases S) (auto simp: clean_step_def)

lemma clean_elems:
  "\<forall>x \<in> set S. x \<noteq> [] \<and> CHR ''/'' \<notin> set x \<Longrightarrow> \<forall>e \<in> set es. CHR ''/'' \<notin> set e \<Longrightarrow>
     \<forall>x \<in> set (foldl (clean_step r) S es). x \<noteq> [] \<and> CHR ''/'' \<notin> set x"
proof (induction es arbitrary: S)
  case Nil
  then show ?case by simp
next
  case (Cons e es)
  have "\<forall>x \<in> set (clean_step r S e). x \<noteq> [] \<and> CHR ''/'' \<notin> set x"
    using clean_step_elems [of S e r] Cons.prems by simp
  then show ?case using Cons.IH [of "clean_step r S e"] Cons.prems by simp
qed

lemma dropWhile_keep: "xs \<noteq> [] \<Longrightarrow> \<not> P (hd xs) \<Longrightarrow> dropWhile P xs = xs"
  by (cases xs) auto

lemma Trim_slash_id:
  assumes "s = [] \<or> (hd s \<noteq> CHR ''/'' \<and> last s \<noteq> CHR ''/'')"
  shows "Trim_slash s = s"
proof (cases s rule: rev_cases)
  case Nil
  then show ?thesis by (simp add: Trim_slash_def)
next
  case (snoc ys y)
  with assms have l: "y \<noteq> CHR ''/''" and h: "hd s \<noteq> CHR ''/''" by auto
  have "s \<noteq> []" using snoc by simp
  with h have a: "dropWhile (\<lambda>c. c = CHR ''/'') s = s"
    using dropWhile_keep [of s "\<lambda>c. c = CHR ''/''"] by simp
  from l snoc have b: "dropWhile (\<lambda>c. c = CHR ''/'') (rev s) = rev s" by simp
  show ?thesis by (simp add: Trim_slash_def a b)
qed

lemma Join_slash_hd:
  "es \<noteq> [] \<Longrightarrow> \<forall>e \<in> set es. e \<noteq> [] \<Longrightarrow> Join_slash es \<noteq> [] \<and> hd (Join_slash es) = hd (hd es)"
  by (induction es rule: Join_slash.induct) auto

lemma Join_slash_last:
  "es \<noteq> [] \<Longrightarrow> \<forall>e \<in> set es. e \<noteq> [] \<Longrightarrow> last (Join_slash es) = last (last es)"
proof (induction es rule: Join_slash.induct)
  case 1
  then show ?case by simp
next
  case (2 e)
  then show ?case by simp
next
  case (3 e f es)
  then have "Join_slash (f # es) \<noteq> []"
    using Join_slash_hd [of "f # es"] by simp
  with 3 show ?case by simp
qed

lemma Clean_relative:
  assumes "p \<noteq> []" "hd p \<noteq> CHR ''/''"
  shows "Clean p = (let out = foldl (clean_step False) [] (Split_slash p)
                    in if out = [] then ''.'' else Join_slash (rev out))"
  using assms by (simp add: Clean_def Let_def)

lemma clean_stack_elems:
  "\<forall>x \<in> set (foldl (clean_step r) [] (Split_slash p)). x \<noteq> [] \<and> CHR ''/'' \<notin> set x"
  using clean_elems [of "[]" "Split_slash p" r] Split_slash_noslash by auto

text \<open>The clean form of a path that stays below its directory: the stack, joined.\<close>

lemma stays_below_stack:
  assumes "stays_below p"
  shows "foldl (clean_step False) [] (Split_slash p) \<noteq> []
       \<and> ''..'' \<notin> set (foldl (clean_step False) [] (Split_slash p))
       \<and> Clean p = Join_slash (rev (foldl (clean_step False) [] (Split_slash p)))"
proof -
  let ?out = "foldl (clean_step False) [] (Split_slash p)"
  from assms have p: "p \<noteq> []" "hd p \<noteq> CHR ''/''" and nd: "Clean p \<noteq> ''.''"
    and dd: "''..'' \<notin> set (Split_slash (Clean p))"
    by (auto simp: stays_below_def)
  have ne: "?out \<noteq> []"
    using nd Clean_relative [OF p] by (auto simp: Let_def)
  then have c: "Clean p = Join_slash (rev ?out)"
    using Clean_relative [OF p] by (simp add: Let_def)
  have "Split_slash (Join_slash (rev ?out)) = rev ?out"
    using ne clean_stack_elems [of False p] by (intro Split_Join) auto
  with dd c have "''..'' \<notin> set ?out" by simp
  with ne c show ?thesis by simp
qed

lemma plain_root_ends:
  assumes "r \<noteq> []" "list_all plain_elem (Split_slash r)"
  shows "hd r \<noteq> CHR ''/'' \<and> last r \<noteq> CHR ''/''"
proof -
  let ?es = "Split_slash r"
  have ne: "?es \<noteq> []" by (rule Split_slash_nonempty)
  have el: "\<forall>e \<in> set ?es. e \<noteq> []"
    using assms(2) by (auto simp: list_all_iff plain_elem_def)
  have j: "Join_slash ?es = r" by (rule Join_Split)
  have h: "hd r = hd (hd ?es)" using Join_slash_hd [OF ne el] j by simp
  have l: "last r = last (last ?es)" using Join_slash_last [OF ne el] j by simp
  have "hd ?es \<in> set ?es" "last ?es \<in> set ?es" using ne by auto
  then have "hd ?es \<noteq> [] \<and> CHR ''/'' \<notin> set (hd ?es)" "last ?es \<noteq> [] \<and> CHR ''/'' \<notin> set (last ?es)"
    using el Split_slash_noslash by blast+
  then have "hd (hd ?es) \<noteq> CHR ''/''" "last (last ?es) \<noteq> CHR ''/''"
    by (metis hd_in_set, metis last_in_set)
  with h l show ?thesis by simp
qed

lemma Join_slash_ends:
  assumes "es \<noteq> []" and "\<forall>e \<in> set es. e \<noteq> [] \<and> CHR ''/'' \<notin> set e"
  shows "Join_slash es \<noteq> [] \<and> hd (Join_slash es) \<noteq> CHR ''/'' \<and> last (Join_slash es) \<noteq> CHR ''/''"
proof -
  have el: "\<forall>e \<in> set es. e \<noteq> []" using assms(2) by simp
  have "hd es \<in> set es" "last es \<in> set es" using assms(1) by auto
  then have "hd es \<noteq> [] \<and> CHR ''/'' \<notin> set (hd es)" "last es \<noteq> [] \<and> CHR ''/'' \<notin> set (last es)"
    using assms(2) by blast+
  then have "hd (hd es) \<noteq> CHR ''/''" "last (last es) \<noteq> CHR ''/''"
    by (metis hd_in_set, metis last_in_set)
  then show ?thesis
    using Join_slash_hd [OF assms(1) el] Join_slash_last [OF assms(1) el] by simp
qed

lemma Clean_below_ends:
  assumes "stays_below p"
  shows "Clean p \<noteq> [] \<and> hd (Clean p) \<noteq> CHR ''/'' \<and> last (Clean p) \<noteq> CHR ''/''"
proof -
  define es where "es = rev (foldl (clean_step False) [] (Split_slash p))"
  from stays_below_stack [OF assms] have ne: "es \<noteq> []" and c: "Clean p = Join_slash es"
    by (auto simp: es_def)
  have el: "\<forall>e \<in> set es. e \<noteq> [] \<and> CHR ''/'' \<notin> set e"
    using clean_stack_elems [of False p] by (auto simp: es_def)
  show ?thesis using Join_slash_ends [OF ne el] c by simp
qed

lemma Join_root_path:
  assumes r: "r \<noteq> []" "list_all plain_elem (Split_slash r)" and p: "stays_below p"
  shows "Join [r, p] = r @ ''/'' @ Clean p"
proof -
  let ?out = "foldl (clean_step False) [] (Split_slash p)"
  from p have pne: "p \<noteq> []" by (simp add: stays_below_def)
  from plain_root_ends [OF r] have hr: "hd r \<noteq> CHR ''/''" by simp
  have j: "Join [r, p] = Clean (r @ CHR ''/'' # p)"
    using r(1) pne by (simp add: Join_def)
  have rel: "hd (r @ CHR ''/'' # p) \<noteq> CHR ''/''" using r(1) hr by simp
  have sp: "Split_slash (r @ CHR ''/'' # p) = Split_slash r @ Split_slash p"
    by (rule Split_slash_app)
  have st: "foldl (clean_step False) (foldl (clean_step False) [] (Split_slash r)) (Split_slash p)
      = ?out @ rev (Split_slash r)"
    using clean_plain [OF r(2), of False "[]"] clean_on_top [of "[]" "Split_slash p" "rev (Split_slash r)"]
      stays_below_stack [OF p] by simp
  from stays_below_stack [OF p] have one: "?out \<noteq> []" and c: "Clean p = Join_slash (rev ?out)" by auto
  have "Clean (r @ CHR ''/'' # p) = Join_slash (rev (?out @ rev (Split_slash r)))"
    using rel one by (simp add: Clean_def Let_def sp st)
  also have "\<dots> = Join_slash (Split_slash r @ rev ?out)" by simp
  also have "\<dots> = Join_slash (Split_slash r) @ CHR ''/'' # Join_slash (rev ?out)"
    using one Split_slash_nonempty by (intro Join_slash_app) auto
  also have "\<dots> = r @ ''/'' @ Clean p" by (simp add: Join_Split c)
  finally show ?thesis using j by simp
qed

text \<open>
  C7 (as amended). For every root prefix made of plain elements (or empty) and every
  relative path that is not rooted and whose clean form is neither \<open>.\<close> nor contains
  \<open>..\<close>, stripping the root from the normalized key gives the cleaned relative path.
\<close>

theorem relativize_normalize:
  assumes "plain_root r" and "stays_below p"
  shows "removePrefixFromObjectPath r (normalize r p) = Clean p"
proof (cases "r = []")
  case True
  from assms(2) have "p \<noteq> []" by (simp add: stays_below_def)
  then have "Join [r, p] = Clean p" using True by (simp add: Join_def)
  moreover have "Trim_slash (Clean p) = Clean p"
    using Clean_below_ends [OF assms(2)] by (intro Trim_slash_id) simp
  ultimately show ?thesis
    using True by (simp add: normalize_def cleanPrefix_def removePrefixFromObjectPath_def)
next
  case False
  with assms(1) have pl: "list_all plain_elem (Split_slash r)" by (simp add: plain_root_def)
  have j: "Join [r, p] = r @ ''/'' @ Clean p"
    by (rule Join_root_path [OF False pl assms(2)])
  from plain_root_ends [OF False pl] have hr: "hd r \<noteq> CHR ''/''" and lr: "last r \<noteq> CHR ''/''" by auto
  from Clean_below_ends [OF assms(2)] have lc: "last (Clean p) \<noteq> CHR ''/''" and cne: "Clean p \<noteq> []" by auto
  have "Trim_slash (r @ ''/'' @ Clean p) = r @ ''/'' @ Clean p"
    using False hr lc cne by (intro Trim_slash_id) simp
  then have n: "normalize r p = r @ ''/'' @ Clean p"
    by (simp add: normalize_def cleanPrefix_def j)
  have ns: "\<not> HasSuffix r ''/''"
    using False lr by (cases r rule: rev_cases) (auto simp: HasSuffix_def)
  show ?thesis
    using False ns by (simp add: n removePrefixFromObjectPath_def TrimPrefix_def HasPrefix_def)
qed

theorem relativize_normalize_witness:
  "plain_root ''charts'' \<and> stays_below ''repo//index.yaml''
   \<and> removePrefixFromObjectPath ''charts'' (normalize ''charts'' ''repo//index.yaml'') = ''repo/index.yaml''
   \<and> plain_root [] \<and> stays_below ''a/./b''
   \<and> removePrefixFromObjectPath [] (normalize [] ''a/./b'') = ''a/b''"
proof -
  have r: "plain_root ''charts''" "plain_root []" by code_simp+
  have p: "stays_below ''repo//index.yaml''" "stays_below ''a/./b''" by code_simp+
  have c: "Clean ''repo//index.yaml'' = ''repo/index.yaml''" "Clean ''a/./b'' = ''a/b''" by code_simp+
  from relativize_normalize [OF r(1) p(1)] relativize_normalize [OF r(2) p(2)] r p c
  show ?thesis by simp
qed

text \<open>The round trip fails for a rooted relative path (the directory pager returns
  such paths), for the empty path, for a path that climbs out of the root, and for a
  root prefix with a doubled separator.\<close>

theorem relativize_normalize_counterexample:
  "removePrefixFromObjectPath ''charts'' (normalize ''charts'' ''/x'') = ''x''
   \<and> Clean ''/x'' = ''/x''
   \<and> removePrefixFromObjectPath ''charts'' (normalize ''charts'' '''') = ''charts''
   \<and> Clean '''' = ''.''
   \<and> removePrefixFromObjectPath ''charts'' (normalize ''charts'' ''../x'') = ''x''
   \<and> Clean ''../x'' = ''../x''
   \<and> removePrefixFromObjectPath ''a//b'' (normalize ''a//b'' ''x'') = ''a/b/x''
   \<and> Clean ''x'' = ''x''"
  by code_simp

section \<open>Properties of the rename\<close>

lemma HeadObject_resolves:
  "fst (Client_HeadObject w k) = None \<longleftrightarrow> objects w k \<noteq> None \<and> fault w (HeadObjectReq k) = None"
  by (auto simp: Client_HeadObject_def split: option.splits)

lemma HeadObject_frame:
  "objects (snd (Client_HeadObject w k)) = objects w
   \<and> requests (snd (Client_HeadObject w k)) = requests w @ [HeadObjectReq k]
   \<and> fault (snd (Client_HeadObject w k)) = fault w
   \<and> lister (snd (Client_HeadObject w k)) = lister w"
  by (auto simp: Client_HeadObject_def sent_def split: option.splits)

lemma ListObjectsV2_frame:
  "objects (snd (Client_ListObjectsV2 w inp)) = objects w
   \<and> requests (snd (Client_ListObjectsV2 w inp)) = requests w @ [ListObjectsV2Req inp]
   \<and> fault (snd (Client_ListObjectsV2 w inp)) = fault w
   \<and> lister (snd (Client_ListObjectsV2 w inp)) = lister w"
  by (auto simp: Client_ListObjectsV2_def sent_def split: option.splits)

lemma CopyObject_requests:
  "requests (snd (Client_CopyObject w src dst)) = requests w @ [CopyObjectReq src dst]"
  by (auto simp: Client_CopyObject_def sent_def split: option.splits)

lemma CopyObject_fails:
  "fst (Client_CopyObject w src dst) = Some e \<Longrightarrow> objects (snd (Client_CopyObject w src dst)) = objects w"
  by (auto simp: Client_CopyObject_def sent_def split: option.splits)

lemma CopyObject_succeeds:
  "fst (Client_CopyObject w src dst) = None \<Longrightarrow>
     objects w src \<noteq> None \<and> objects (snd (Client_CopyObject w src dst)) = (objects w)(dst := objects w src)"
  by (auto simp: Client_CopyObject_def sent_def split: option.splits)

lemma DeleteObject_requests:
  "requests (snd (Client_DeleteObject w k)) = requests w @ [DeleteObjectReq k]"
  by (auto simp: Client_DeleteObject_def sent_def split: option.splits)

lemma DeleteObject_fails:
  "fst (Client_DeleteObject w k) = Some e \<Longrightarrow> objects (snd (Client_DeleteObject w k)) = objects w"
  by (auto simp: Client_DeleteObject_def sent_def split: option.splits)

text \<open>
  X4. In \<open>moveObject\<close> the copy request is sent first, and a delete request only after
  the copy succeeded; the delete request is for the key \<open>DeleteObject\<close> computes, the
  root prefix joined to the key \<open>moveObject\<close> was given. When the copy fails its error is
  returned and the bucket is unchanged. When the copy succeeds and that delete request
  fails, its error is returned and the object is at both keys.
\<close>

theorem moveObject_copy_then_delete:
  "requests (snd (moveObject b w path newPath)) =
      requests w @ CopyObjectReq path newPath #
        (case fst (Client_CopyObject w path newPath) of
           Some e \<Rightarrow> []
         | None \<Rightarrow> [DeleteObjectReq (cleanPrefix (Join [Prefix b, path]))])
   \<and> (\<forall>e. fst (Client_CopyObject w path newPath) = Some e \<longrightarrow>
          fst (moveObject b w path newPath) = Some e
          \<and> objects (snd (moveObject b w path newPath)) = objects w)
   \<and> (\<forall>e. fst (Client_CopyObject w path newPath) = None
          \<and> fst (DeleteObject b (snd (Client_CopyObject w path newPath)) path) = Some e \<longrightarrow>
          fst (moveObject b w path newPath) = Some e
          \<and> objects w path \<noteq> None
          \<and> objects (snd (moveObject b w path newPath)) path = objects w path
          \<and> objects (snd (moveObject b w path newPath)) newPath = objects w path)"
proof -
  obtain r w1 where c: "Client_CopyObject w path newPath = (r, w1)" by (cases "Client_CopyObject w path newPath")
  have rq: "requests w1 = requests w @ [CopyObjectReq path newPath]"
    using CopyObject_requests [of w path newPath] c by simp
  show ?thesis
  proof (cases r)
    case (Some e)
    then have "objects w1 = objects w" using CopyObject_fails [of w path newPath e] c by simp
    with Some c rq show ?thesis by (simp add: moveObject_def)
  next
    case None
    then have ob: "objects w path \<noteq> None" "objects w1 = (objects w)(newPath := objects w path)"
      using CopyObject_succeeds [of w path newPath] c by auto
    have m: "moveObject b w path newPath = DeleteObject b w1 path"
      using None c by (simp add: moveObject_def)
    have d: "requests (snd (DeleteObject b w1 path)) = requests w1 @ [DeleteObjectReq (cleanPrefix (Join [Prefix b, path]))]"
      by (simp add: DeleteObject_def DeleteObject_requests)
    have f: "\<And>e. fst (DeleteObject b w1 path) = Some e \<Longrightarrow> objects (snd (DeleteObject b w1 path)) = objects w1"
      by (simp add: DeleteObject_def DeleteObject_fails)
    show ?thesis
      using None c rq m d f ob by auto
  qed
qed

lemma example_keys:
  "cleanPrefix (Join [[], ''old'']) = ''old''"
  "cleanPrefix (Join [[], ''new'']) = ''new''"
  "cleanPrefix (Join [[], ''dir'']) = ''dir''"
  "cleanPrefix (Join [[], ''gone'']) = ''gone''"
  by code_simp+

text \<open>Moving the missing key \<open>gone\<close>: the copy fails, nothing else is sent. Moving \<open>old\<close>
  to \<open>copy\<close>: the copy succeeds, the delete is refused, the object is at both keys.\<close>

theorem moveObject_copy_then_delete_witness:
  "fst (moveObject example_backend example_bucket ''gone'' ''copy'') = Some (AwsError ''NoSuchKey'')
   \<and> objects (snd (moveObject example_backend example_bucket ''gone'' ''copy'')) = objects example_bucket
   \<and> requests (snd (moveObject example_backend example_bucket ''gone'' ''copy'')) = [CopyObjectReq ''gone'' ''copy'']
   \<and> fst (moveObject example_backend example_bucket ''old'' ''copy'') = Some (AwsError ''AccessDenied'')
   \<and> objects (snd (moveObject example_backend example_bucket ''old'' ''copy'')) ''old''
        = Some \<lparr>Body = ''x'', Modified = 0\<rparr>
   \<and> objects (snd (moveObject example_backend example_bucket ''old'' ''copy'')) ''copy''
        = Some \<lparr>Body = ''x'', Modified = 0\<rparr>
   \<and> requests (snd (moveObject example_backend example_bucket ''old'' ''copy''))
        = [CopyObjectReq ''old'' ''copy'', DeleteObjectReq ''old'']"
proof -
  have c1: "fst (Client_CopyObject example_bucket ''gone'' ''copy'') = Some (AwsError ''NoSuchKey'')"
    by (simp add: Client_CopyObject_def example_bucket_def)
  have c2: "fst (Client_CopyObject example_bucket ''old'' ''copy'') = None"
    by (simp add: Client_CopyObject_def example_bucket_def)
  have d2: "fst (DeleteObject example_backend (snd (Client_CopyObject example_bucket ''old'' ''copy'')) ''old'')
      = Some (AwsError ''AccessDenied'')"
    by (simp add: DeleteObject_def Client_DeleteObject_def Client_CopyObject_def example_bucket_def
        example_backend_def example_keys sent_def)
  have o: "objects example_bucket ''old'' = Some \<lparr>Body = ''x'', Modified = 0\<rparr>"
    "requests example_bucket = []"
    by (simp_all add: example_bucket_def)
  have p: "Prefix example_backend = []" by (simp add: example_backend_def)
  from moveObject_copy_then_delete [of example_backend example_bucket "''gone''" "''copy''"] c1
  have one: "fst (moveObject example_backend example_bucket ''gone'' ''copy'') = Some (AwsError ''NoSuchKey'')
     \<and> objects (snd (moveObject example_backend example_bucket ''gone'' ''copy'')) = objects example_bucket
     \<and> requests (snd (moveObject example_backend example_bucket ''gone'' ''copy'')) = [CopyObjectReq ''gone'' ''copy'']"
    using o by simp
  from moveObject_copy_then_delete [of example_backend example_bucket "''old''" "''copy''"] c2 d2
  have two: "fst (moveObject example_backend example_bucket ''old'' ''copy'') = Some (AwsError ''AccessDenied'')
     \<and> objects (snd (moveObject example_backend example_bucket ''old'' ''copy'')) ''old''
          = Some \<lparr>Body = ''x'', Modified = 0\<rparr>
     \<and> objects (snd (moveObject example_backend example_bucket ''old'' ''copy'')) ''copy''
          = Some \<lparr>Body = ''x'', Modified = 0\<rparr>
     \<and> requests (snd (moveObject example_backend example_bucket ''old'' ''copy''))
          = [CopyObjectReq ''old'' ''copy'', DeleteObjectReq ''old'']"
    using o p example_keys by simp
  from one two show ?thesis by blast
qed

text \<open>
  C2. When the head request for the key of \<open>newPath\<close> succeeds (the key resolves to an
  object), or it answers NotFound and the one-key listing under \<open>newPath/\<close> reports at
  least one key, \<open>RenamePrefixOrObject\<close> returns \<open>ErrNewPathNotEmpty\<close>, whatever the
  fuel; the bucket's objects are unchanged and no copy and no delete request was sent.
\<close>

theorem RenamePrefixOrObject_collision:
  assumes "fst (Client_HeadObject w (cleanPrefix (Join [Prefix b, newPath]))) = None
     \<or> (fst (Client_HeadObject w (cleanPrefix (Join [Prefix b, newPath]))) = Some (AwsError ''NotFound'')
        \<and> (\<exists>out k. fst (Client_ListObjectsV2 (snd (Client_HeadObject w (cleanPrefix (Join [Prefix b, newPath]))))
                 \<lparr>in_Prefix = cleanPrefix (Join [Prefix b, newPath]) @ ''/'', in_Delimiter = None,
                  in_MaxKeys = Some 1, in_ContinuationToken = None\<rparr>) = Inr out
               \<and> KeyCount out = Some k \<and> 0 < k))"
  shows "\<exists>w' rs. RenamePrefixOrObject fuel b w path newPath = Some (Some ErrNewPathNotEmpty, w')
           \<and> objects w' = objects w
           \<and> requests w' = requests w @ rs \<and> no_copy_no_delete rs"
proof -
  let ?k = "cleanPrefix (Join [Prefix b, newPath])"
  let ?probe = "\<lparr>in_Prefix = ?k @ ''/'', in_Delimiter = None, in_MaxKeys = Some 1, in_ContinuationToken = None\<rparr>"
  obtain r w1 where h: "Client_HeadObject w ?k = (r, w1)" by (cases "Client_HeadObject w ?k")
  have f1: "objects w1 = objects w" "requests w1 = requests w @ [HeadObjectReq ?k]"
    using HeadObject_frame [of w ?k] h by auto
  from assms h consider (object) "r = None"
    | (under) out k where "r = Some (AwsError ''NotFound'')"
        "fst (Client_ListObjectsV2 w1 ?probe) = Inr out" "KeyCount out = Some k" "0 < k"
    by auto
  then show ?thesis
  proof cases
    case object
    then have "RenamePrefixOrObject fuel b w path newPath = Some (Some ErrNewPathNotEmpty, w1)"
      using h by (simp add: RenamePrefixOrObject_def)
    then show ?thesis using f1 by (simp add: no_copy_no_delete_def)
  next
    case under
    obtain w2 where l: "Client_ListObjectsV2 w1 ?probe = (Inr out, w2)"
      using under(2) by (cases "Client_ListObjectsV2 w1 ?probe") auto
    have f2: "objects w2 = objects w1" "requests w2 = requests w1 @ [ListObjectsV2Req ?probe]"
      using ListObjectsV2_frame [of w1 ?probe] l by auto
    have "RenamePrefixOrObject fuel b w path newPath = Some (Some ErrNewPathNotEmpty, w2)"
      using h l under by (simp add: RenamePrefixOrObject_def)
    then show ?thesis using f1 f2 by (simp add: no_copy_no_delete_def)
  qed
qed

text \<open>Renaming \<open>old\<close> to the existing object \<open>new\<close>, and to the non-empty prefix \<open>dir\<close>.\<close>

theorem RenamePrefixOrObject_collision_witness:
  "fst (Client_HeadObject example_bucket ''new'') = None
   \<and> (\<exists>w' rs. RenamePrefixOrObject 0 example_backend example_bucket ''old'' ''new''
                 = Some (Some ErrNewPathNotEmpty, w')
           \<and> objects w' = objects example_bucket
           \<and> requests w' = requests example_bucket @ rs \<and> no_copy_no_delete rs)
   \<and> fst (Client_HeadObject example_bucket ''dir'') = Some (AwsError ''NotFound'')
   \<and> (\<exists>w' rs. RenamePrefixOrObject 0 example_backend example_bucket ''old'' ''dir''
                 = Some (Some ErrNewPathNotEmpty, w')
           \<and> objects w' = objects example_bucket
           \<and> requests w' = requests example_bucket @ rs \<and> no_copy_no_delete rs)"
proof -
  have p: "Prefix example_backend = []" by (simp add: example_backend_def)
  have h1: "fst (Client_HeadObject example_bucket ''new'') = None"
    by (simp add: Client_HeadObject_def example_bucket_def)
  have h2: "fst (Client_HeadObject example_bucket ''dir'') = Some (AwsError ''NotFound'')"
    by (simp add: Client_HeadObject_def example_bucket_def)
  have l2: "fst (Client_ListObjectsV2 (snd (Client_HeadObject example_bucket ''dir''))
                 \<lparr>in_Prefix = ''dir'' @ ''/'', in_Delimiter = None,
                  in_MaxKeys = Some 1, in_ContinuationToken = None\<rparr>)
      = Inr \<lparr>CommonPrefixes = [], Contents = [\<lparr>Key = Some ''dir/x'', Key_LastModified = Some 0\<rparr>],
               IsTruncated = Some False, KeyCount = Some 1,
               out_ContinuationToken = None, NextContinuationToken = None\<rparr>"
    by (simp add: Client_ListObjectsV2_def Client_HeadObject_def example_bucket_def sent_def)
  have one: "\<exists>w' rs. RenamePrefixOrObject 0 example_backend example_bucket ''old'' ''new''
                 = Some (Some ErrNewPathNotEmpty, w')
           \<and> objects w' = objects example_bucket
           \<and> requests w' = requests example_bucket @ rs \<and> no_copy_no_delete rs"
    using RenamePrefixOrObject_collision [of example_bucket example_backend "''new''" 0 "''old''"] h1
    by (simp add: p example_keys)
  have two: "\<exists>w' rs. RenamePrefixOrObject 0 example_backend example_bucket ''old'' ''dir''
                 = Some (Some ErrNewPathNotEmpty, w')
           \<and> objects w' = objects example_bucket
           \<and> requests w' = requests example_bucket @ rs \<and> no_copy_no_delete rs"
    using RenamePrefixOrObject_collision [of example_bucket example_backend "''dir''" 0 "''old''"] h2 l2
    by (simp add: p example_keys)
  from h1 one h2 two show ?thesis by blast
qed

text \<open>
  X3. A rename under a root prefix. \<open>moveObject\<close> is given the full key and hands it to
  \<open>DeleteObject\<close>, which joins the root prefix to it once more: renaming \<open>old\<close> to \<open>new\<close>
  under the root prefix \<open>charts\<close> succeeds, copies \<open>charts/old\<close> to \<open>charts/new\<close>, sends
  the delete for \<open>charts/charts/old\<close>, and leaves \<open>charts/old\<close> in the bucket.
\<close>

theorem RenamePrefixOrObject_under_root_prefix:
  "map_option (\<lambda>(e, w). (e, requests w, objects w ''charts/old'', objects w ''charts/new''))
     (RenamePrefixOrObject 0 charts_backend charts_bucket ''old'' ''new'')
   = Some (None,
           [HeadObjectReq ''charts/new'',
            ListObjectsV2Req \<lparr>in_Prefix = ''charts/new/'', in_Delimiter = None, in_MaxKeys = Some 1,
                              in_ContinuationToken = None\<rparr>,
            HeadObjectReq ''charts/old'',
            CopyObjectReq ''charts/old'' ''charts/new'',
            DeleteObjectReq ''charts/charts/old''],
           Some \<lparr>Body = ''x'', Modified = 0\<rparr>,
           Some \<lparr>Body = ''x'', Modified = 0\<rparr>)"
proof -
  have k: "cleanPrefix (Join [''charts'', ''new'']) = ''charts/new''"
    "cleanPrefix (Join [''charts'', ''old'']) = ''charts/old''"
    "cleanPrefix (Join [''charts'', ''charts/old'']) = ''charts/charts/old''"
    by code_simp+
  show ?thesis
    by (simp add: RenamePrefixOrObject_def moveObject_def DeleteObject_def Client_HeadObject_def
        Client_ListObjectsV2_def Client_CopyObject_def Client_DeleteObject_def sent_def
        charts_backend_def charts_bucket_def k)
qed

text \<open>
  C3. The rename unit under the root prefix \<open>charts\<close>, moving the key \<open>charts/old\<close> to
  \<open>charts/new\<close>. The copy is sent first, and then a delete for \<open>charts/charts/old\<close>, not
  for the key that was copied. On the bucket where nothing fails the unit returns no
  error and \<open>charts/old\<close> is still there. On the bucket that refuses the deletion of
  \<open>charts/old\<close> the unit returns no error either: the object is at both keys and no
  delete error is reported.
\<close>

theorem moveObject_under_root_prefix:
  "fst (moveObject charts_backend charts_bucket ''charts/old'' ''charts/new'') = None
   \<and> requests (snd (moveObject charts_backend charts_bucket ''charts/old'' ''charts/new''))
       = [CopyObjectReq ''charts/old'' ''charts/new'', DeleteObjectReq ''charts/charts/old'']
   \<and> objects (snd (moveObject charts_backend charts_bucket ''charts/old'' ''charts/new'')) ''charts/old''
       = Some \<lparr>Body = ''x'', Modified = 0\<rparr>
   \<and> fault guarded_bucket (DeleteObjectReq ''charts/old'') = Some (AwsError ''AccessDenied'')
   \<and> fst (moveObject charts_backend guarded_bucket ''charts/old'' ''charts/new'') = None
   \<and> requests (snd (moveObject charts_backend guarded_bucket ''charts/old'' ''charts/new''))
       = [CopyObjectReq ''charts/old'' ''charts/new'', DeleteObjectReq ''charts/charts/old'']
   \<and> objects (snd (moveObject charts_backend guarded_bucket ''charts/old'' ''charts/new'')) ''charts/old''
       = Some \<lparr>Body = ''x'', Modified = 0\<rparr>
   \<and> objects (snd (moveObject charts_backend guarded_bucket ''charts/old'' ''charts/new'')) ''charts/new''
       = Some \<lparr>Body = ''x'', Modified = 0\<rparr>"
proof -
  have k: "cleanPrefix (Join [''charts'', ''charts/old'']) = ''charts/charts/old''"
    by code_simp
  show ?thesis
    by (simp add: moveObject_def DeleteObject_def Client_CopyObject_def Client_DeleteObject_def
        sent_def charts_backend_def charts_bucket_def guarded_bucket_def k)
qed

section \<open>Properties of the directory pager\<close>

lemma s3_NextPage_called:
  "nextPageCalled l \<Longrightarrow> s3_NextPage l w = ((None, Some double_advance), l, w)"
  by (simp add: s3_NextPage_def double_advance_def)

lemma local_NextPage_called:
  "nextPageCalled l \<Longrightarrow> local_NextPage l = ((None, Some double_advance), l)"
  by (simp add: local_NextPage_def double_advance_def)

lemma s3_NextPage_exhausted:
  "\<not> nextPageCalled l \<Longrightarrow> isEOF l \<Longrightarrow>
     s3_NextPage l w = ((Some \<lparr>prefix = prefix l, limit = limit l, filesRead = [], directoriesRead = [],
                 nextPageCalled = False, isEOF = True,
                 backend = backend l, continuationToken = []\<rparr>, Some EOF), l, w)"
  by (simp add: s3_NextPage_def)

lemma local_NextPage_exhausted:
  "\<not> nextPageCalled l \<Longrightarrow> isEOF l \<Longrightarrow>
     local_NextPage l = ((Some \<lparr>prefix = prefix l, limit = limit l, filesRead = [], directoriesRead = [],
                 nextPageCalled = False, isEOF = True, directory = directory l\<rparr>, Some EOF), l)"
  by (simp add: local_NextPage_def)

lemma s3_NextPage_listed:
  assumes "\<not> nextPageCalled l" "\<not> isEOF l"
    and "Client_ListObjectsV2 w (NextPage_request l) = (Inr out, w1)"
  shows "\<exists>r. s3_NextPage l w = ((Some r, if isEOF r then Some EOF else None), l\<lparr>nextPageCalled := True\<rparr>, w1)
      \<and> directoriesRead r = read_directories (Prefix (backend l)) (CommonPrefixes out) []
      \<and> filesRead r = read_files (Prefix (backend l)) (Contents out) []
      \<and> isEOF r = (case IsTruncated out of None \<Rightarrow> True | Some t \<Rightarrow> \<not> t)"
  using assms by (simp add: s3_NextPage_def Let_def)

lemma s3_NextPage_list_failed:
  assumes "\<not> nextPageCalled l" "\<not> isEOF l"
    and "Client_ListObjectsV2 w (NextPage_request l) = (Inl e, w1)"
  shows "s3_NextPage l w = ((None, Some e), l, w1)"
  using assms by (simp add: s3_NextPage_def Let_def)

lemma local_NextPage_read:
  assumes "\<not> nextPageCalled l" "\<not> isEOF l"
    and "ReadDir (directory l) (limit l) = ((entries, err), f')"
    and "read_entries (prefix l) entries ([], []) = (ds, fs)"
  shows "\<exists>r err'. local_NextPage l = ((Some r, err'), l\<lparr>nextPageCalled := True, directory := f'\<rparr>)
      \<and> directoriesRead r = ds \<and> filesRead r = fs
      \<and> isEOF r = ((0 < limit l \<and> err = Some EOF) \<or> (limit l \<le> 0 \<and> err = None))
      \<and> err' = (if isEOF r \<and> err = None then Some EOF else err)"
  using assms by (auto simp add: local_NextPage_def Let_def errors_Is_def)

lemma listed_path_slash: "HasPrefix (listed_path bp k) ''/''"
  by (simp add: listed_path_def Let_def HasPrefix_def)

lemma listed_path_nonempty: "listed_path bp k \<noteq> []"
proof
  assume "listed_path bp k = []"
  then have "\<not> HasPrefix (listed_path bp k) ''/''" by (simp add: HasPrefix_def)
  then show False using listed_path_slash by simp
qed

lemma listed_path_invalid: "objectPathIsInvalid (listed_path bp k)"
proof -
  have "take 1 (listed_path bp k) = ''/''"
    using listed_path_slash [of bp k] by (simp add: HasPrefix_def)
  then have "CHR ''/'' \<in> set (listed_path bp k)"
    by (cases "listed_path bp k") auto
  then show ?thesis by (simp add: objectPathIsInvalid_def)
qed

lemma read_directories_eq:
  "map Path (read_directories bp ds acc) =
     map Path acc @ filter (\<lambda>p. p \<noteq> ''/'') (map (listed_path bp) (present_keys ds))"
proof (induction ds arbitrary: acc)
  case Nil
  then show ?case by (simp add: present_keys_def map_filter_simps)
next
  case (Cons d ds)
  note ne = listed_path_nonempty
  show ?case
    by (cases d) (simp_all add: Cons.IH present_keys_def map_filter_simps Let_def ne)
qed

lemma read_files_eq:
  "map Path (read_files bp fs acc) =
     map Path acc @ filter (\<lambda>p. p \<noteq> ''/'') (map (listed_path bp) (present_keys (map Key fs)))"
proof (induction fs arbitrary: acc)
  case Nil
  then show ?case by (simp add: present_keys_def map_filter_simps)
next
  case (Cons f fs)
  note ne = listed_path_nonempty
  show ?case
    by (cases "Key f") (simp_all add: Cons.IH present_keys_def map_filter_simps Let_def ne)
qed

lemma read_entries_eq:
  "read_entries pre es (ds, fs) =
     (ds @ map (\<lambda>e. entry_of (Join [pre, Name e])) (filter IsDir es),
      fs @ map (\<lambda>e. entry_of (Join [pre, Name e])) (filter (\<lambda>e. \<not> IsDir e) es))"
  by (induction es arbitrary: ds fs) (simp_all add: Let_def entry_of_def)

text \<open>
  C6 (as amended). A page that is not exhausted and whose \<open>NextPage\<close> got past its
  listing (for S3: the listing request did not fail; for the local backend: always) is
  marked: the next call on it returns no page and the double-advance error, and touches
  nothing. On an exhausted page that was never advanced, \<open>NextPage\<close> returns a fresh empty
  exhausted page with \<open>io.EOF\<close> and leaves the page as it was, so it does so on every
  call.
\<close>

theorem NextPage_twice:
  "(\<not> isEOF l \<and> (nextPageCalled l \<or> (\<exists>out. fst (Client_ListObjectsV2 w (NextPage_request l)) = Inr out)) \<longrightarrow>
      (\<forall>w'. s3_NextPage (fst (snd (s3_NextPage l w))) w'
               = ((None, Some double_advance), fst (snd (s3_NextPage l w)), w')))
   \<and> (\<not> isEOF ll \<longrightarrow>
        local_NextPage (snd (local_NextPage ll)) = ((None, Some double_advance), snd (local_NextPage ll)))
   \<and> (isEOF l \<and> \<not> nextPageCalled l \<longrightarrow>
        (\<exists>r. s3_NextPage l w = ((Some r, Some EOF), l, w)
            \<and> isEOF r \<and> GetDirectories r = [] \<and> GetFiles r = []))
   \<and> (isEOF ll \<and> \<not> nextPageCalled ll \<longrightarrow>
        (\<exists>r. local_NextPage ll = ((Some r, Some EOF), ll)
            \<and> isEOF r \<and> GetDirectories r = [] \<and> GetFiles r = []))"
proof (intro conjI impI allI)
  fix w'
  assume a: "\<not> isEOF l \<and> (nextPageCalled l \<or> (\<exists>out. fst (Client_ListObjectsV2 w (NextPage_request l)) = Inr out))"
  show "s3_NextPage (fst (snd (s3_NextPage l w))) w'
               = ((None, Some double_advance), fst (snd (s3_NextPage l w)), w')"
  proof (cases "nextPageCalled l")
    case True
    then show ?thesis by (simp add: s3_NextPage_called)
  next
    case False
    with a obtain out w1 where "Client_ListObjectsV2 w (NextPage_request l) = (Inr out, w1)"
      by (cases "Client_ListObjectsV2 w (NextPage_request l)") auto
    with a False obtain r where "s3_NextPage l w = ((Some r, if isEOF r then Some EOF else None), l\<lparr>nextPageCalled := True\<rparr>, w1)"
      using s3_NextPage_listed [of l w out w1] by blast
    then show ?thesis by (simp add: s3_NextPage_called)
  qed
next
  assume a: "\<not> isEOF ll"
  show "local_NextPage (snd (local_NextPage ll)) = ((None, Some double_advance), snd (local_NextPage ll))"
  proof (cases "nextPageCalled ll")
    case True
    then show ?thesis by (simp add: local_NextPage_called)
  next
    case False
    obtain entries err f' where rd: "ReadDir (directory ll) (limit ll) = ((entries, err), f')"
      by (metis prod.exhaust)
    obtain ds fs where re: "read_entries (prefix ll) entries ([], []) = (ds, fs)"
      by (metis prod.exhaust)
    from local_NextPage_read [OF False a rd re]
    have "nextPageCalled (snd (local_NextPage ll))" by auto
    then show ?thesis by (rule local_NextPage_called)
  qed
next
  assume "isEOF l \<and> \<not> nextPageCalled l"
  then show "\<exists>r. s3_NextPage l w = ((Some r, Some EOF), l, w)
            \<and> isEOF r \<and> GetDirectories r = [] \<and> GetFiles r = []"
    by (simp add: s3_NextPage_exhausted GetDirectories_def GetFiles_def)
next
  assume "isEOF ll \<and> \<not> nextPageCalled ll"
  then show "\<exists>r. local_NextPage ll = ((Some r, Some EOF), ll)
            \<and> isEOF r \<and> GetDirectories r = [] \<and> GetFiles r = []"
    by (simp add: local_NextPage_exhausted GetDirectories_def GetFiles_def)
qed

lemma fresh_page_listing:
  "fst (Client_ListObjectsV2 listing_bucket (NextPage_request fresh_page))
     = Inr \<lparr>CommonPrefixes = [Some ''charts/dir/''],
            Contents = [\<lparr>Key = Some ''charts/file.txt'', Key_LastModified = Some 9\<rparr>],
            IsTruncated = Some False, KeyCount = Some 2,
            out_ContinuationToken = None, NextContinuationToken = None\<rparr>"
proof -
  have "cleanPrefix (Join [''charts'', []]) = ''charts''" by code_simp
  then show ?thesis
    by (simp add: Client_ListObjectsV2_def NextPage_request_def fresh_page_def listing_backend_def
        listing_bucket_def)
qed

text \<open>The first page of the example listing and a page over a local directory, each
  advanced twice; the exhausted pages of both backends, advanced once.\<close>

theorem NextPage_twice_witness:
  "\<not> isEOF fresh_page
   \<and> s3_NextPage (fst (snd (s3_NextPage fresh_page listing_bucket))) listing_bucket
       = ((None, Some double_advance), fst (snd (s3_NextPage fresh_page listing_bucket)), listing_bucket)
   \<and> \<not> isEOF srv_page
   \<and> local_NextPage (snd (local_NextPage srv_page)) = ((None, Some double_advance), snd (local_NextPage srv_page))
   \<and> (\<exists>r. s3_NextPage (fresh_page\<lparr>isEOF := True\<rparr>) listing_bucket
            = ((Some r, Some EOF), fresh_page\<lparr>isEOF := True\<rparr>, listing_bucket)
          \<and> isEOF r \<and> GetDirectories r = [] \<and> GetFiles r = [])
   \<and> isEOF exhausted_page \<and> \<not> nextPageCalled exhausted_page
   \<and> (\<exists>r. local_NextPage exhausted_page = ((Some r, Some EOF), exhausted_page)
          \<and> isEOF r \<and> GetDirectories r = [] \<and> GetFiles r = [])"
proof -
  have a: "\<not> isEOF fresh_page" "\<not> isEOF srv_page"
    by (simp_all add: fresh_page_def srv_page_def)
  have b: "isEOF exhausted_page \<and> \<not> nextPageCalled exhausted_page"
    by (simp add: exhausted_page_def)
  have c: "isEOF (fresh_page\<lparr>isEOF := True\<rparr>) \<and> \<not> nextPageCalled (fresh_page\<lparr>isEOF := True\<rparr>)"
    by (simp add: fresh_page_def)
  from NextPage_twice [of fresh_page listing_bucket srv_page] a fresh_page_listing
  have one: "s3_NextPage (fst (snd (s3_NextPage fresh_page listing_bucket))) listing_bucket
       = ((None, Some double_advance), fst (snd (s3_NextPage fresh_page listing_bucket)), listing_bucket)"
    and two: "local_NextPage (snd (local_NextPage srv_page)) = ((None, Some double_advance), snd (local_NextPage srv_page))"
    by simp_all
  from NextPage_twice [of "fresh_page\<lparr>isEOF := True\<rparr>" listing_bucket exhausted_page] b c
  have three: "\<exists>r. s3_NextPage (fresh_page\<lparr>isEOF := True\<rparr>) listing_bucket
            = ((Some r, Some EOF), fresh_page\<lparr>isEOF := True\<rparr>, listing_bucket)
          \<and> isEOF r \<and> GetDirectories r = [] \<and> GetFiles r = []"
    and four: "\<exists>r. local_NextPage exhausted_page = ((Some r, Some EOF), exhausted_page)
          \<and> isEOF r \<and> GetDirectories r = [] \<and> GetFiles r = []"
    by simp_all
  from a b one two three four show ?thesis by simp
qed

text \<open>Listing a missing directory gives an exhausted page; \<open>NextPage\<close> on it returns a
  page and \<open>io.EOF\<close>, and so does a second \<open>NextPage\<close> on the same page.\<close>

theorem NextPage_twice_on_exhausted_page:
  "local_ListObjectsFromDirectory srv_backend srv_fs ''nowhere'' 0 = (Some exhausted_page, None)
   \<and> local_NextPage exhausted_page = ((Some exhausted_page, Some EOF), exhausted_page)
   \<and> local_NextPage (snd (local_NextPage exhausted_page)) = ((Some exhausted_page, Some EOF), exhausted_page)"
proof -
  have j: "Join [''/srv'', ''nowhere''] = ''/srv/nowhere''" by code_simp
  have one: "local_ListObjectsFromDirectory srv_backend srv_fs ''nowhere'' 0 = (Some exhausted_page, None)"
    by (simp add: local_ListObjectsFromDirectory_def srv_backend_def j os_Open_def srv_fs_def
        os_IsNotExist_def exhausted_page_def)
  have two: "local_NextPage exhausted_page = ((Some exhausted_page, Some EOF), exhausted_page)"
    by (simp add: local_NextPage_def exhausted_page_def)
  from one two show ?thesis by simp
qed

section \<open>The final page and \<open>io.EOF\<close>\<close>

lemma s3_NextPage_final:
  assumes "fst (s3_NextPage l w) = (Some r, err)" and "isEOF r"
  shows "err = Some EOF"
proof (cases "nextPageCalled l")
  case True
  then show ?thesis using assms by (simp add: s3_NextPage_called)
next
  case nc: False
  show ?thesis
  proof (cases "isEOF l")
    case True
    then show ?thesis using assms nc by (simp add: s3_NextPage_exhausted)
  next
    case False
    obtain res w1 where c: "Client_ListObjectsV2 w (NextPage_request l) = (res, w1)"
      by (metis prod.exhaust)
    show ?thesis
    proof (cases res)
      case (Inl e)
      then show ?thesis using s3_NextPage_list_failed [OF nc False, of w e w1] c assms by simp
    next
      case (Inr out)
      then show ?thesis using s3_NextPage_listed [OF nc False, of w out w1] c assms by auto
    qed
  qed
qed

lemma local_NextPage_final:
  assumes "fst (local_NextPage l) = (Some r, err)" and "isEOF r"
  shows "err = Some EOF"
proof (cases "nextPageCalled l")
  case True
  then show ?thesis using assms by (simp add: local_NextPage_called)
next
  case nc: False
  show ?thesis
  proof (cases "isEOF l")
    case True
    then show ?thesis using assms nc by (simp add: local_NextPage_exhausted)
  next
    case False
    obtain entries e f' where rd: "ReadDir (directory l) (limit l) = ((entries, e), f')"
      by (metis prod.exhaust)
    obtain ds fs where re: "read_entries (prefix l) entries ([], []) = (ds, fs)"
      by (metis prod.exhaust)
    from local_NextPage_read [OF nc False rd re] assms show ?thesis by auto
  qed
qed

lemma s3_ListObjectsFromDirectory_final:
  assumes "fst (s3_ListObjectsFromDirectory b w pre lim) = (Some r, err)" and "isEOF r"
  shows "err = Some EOF"
proof -
  let ?output = "\<lparr>prefix = pre, limit = lim, filesRead = [], directoriesRead = [],
                    nextPageCalled = False, isEOF = False, backend = b, continuationToken = []\<rparr>"
  obtain h w1 where h: "Client_HeadObject w (cleanPrefix (Join [Prefix b, pre])) = (h, w1)"
    by (metis prod.exhaust)
  show ?thesis
  proof (cases h)
    case None
    then show ?thesis using h assms by (simp add: s3_ListObjectsFromDirectory_def)
  next
    case (Some e)
    show ?thesis
    proof (cases "aws_and_not_NotFound e")
      case True
      then show ?thesis using h Some assms by (simp add: s3_ListObjectsFromDirectory_def)
    next
      case False
      then have "fst (s3_ListObjectsFromDirectory b w pre lim) = fst (s3_NextPage ?output w1)"
        using h Some by (simp add: s3_ListObjectsFromDirectory_def split: prod.splits)
      then show ?thesis using assms s3_NextPage_final by metis
    qed
  qed
qed

lemma local_ListObjectsFromDirectory_final:
  assumes "local_ListObjectsFromDirectory lb fs pre lim = (Some r, err)" and "isEOF r"
  shows "if os_Open fs (Join [RootDirectory lb, pre]) = Inl ErrNotExist
         then err = None \<and> directoriesRead r = [] \<and> filesRead r = []
         else err = Some EOF"
proof (cases "os_Open fs (Join [RootDirectory lb, pre])")
  case (Inl e)
  then show ?thesis using assms
    by (auto simp: local_ListObjectsFromDirectory_def Let_def os_IsNotExist_def split: if_splits)
next
  case (Inr f)
  show ?thesis
  proof (cases "Stat_IsDir f")
    case (Inl e)
    then show ?thesis using Inr assms by (simp add: local_ListObjectsFromDirectory_def)
  next
    case isd: (Inr isdir)
    show ?thesis
    proof (cases isdir)
      case True
      let ?output = "\<lparr>prefix = pre, limit = lim, filesRead = [], directoriesRead = [],
                    nextPageCalled = False, isEOF = False, directory = Some f\<rparr>"
      have "local_ListObjectsFromDirectory lb fs pre lim = fst (local_NextPage ?output)"
        using Inr isd True by (simp add: local_ListObjectsFromDirectory_def)
      then have "err = Some EOF" using assms local_NextPage_final by metis
      then show ?thesis using Inr by simp
    next
      case False
      then show ?thesis using Inr isd assms by (simp add: local_ListObjectsFromDirectory_def)
    qed
  qed
qed

text \<open>
  C10 (as amended). Whenever \<open>NextPage\<close> of either backend, or the S3
  \<open>ListObjectsFromDirectory\<close>, returns a page that is not truncated, it returns it with
  \<open>io.EOF\<close>; a listing answered as complete gives such a page, with the entries read.
  The local \<open>ListObjectsFromDirectory\<close> does the same when the directory opens; for a
  path that does not exist it returns an empty page that is not truncated with a nil
  error.
\<close>

theorem final_page_with_EOF:
  "(\<forall>r err. fst (s3_NextPage l w) = (Some r, err) \<and> \<not> IsTruncated_page r \<longrightarrow> err = Some EOF)
   \<and> (\<forall>r err. fst (local_NextPage ll) = (Some r, err) \<and> \<not> IsTruncated_page r \<longrightarrow> err = Some EOF)
   \<and> (\<forall>r err. fst (s3_ListObjectsFromDirectory b w pre lim) = (Some r, err) \<and> \<not> IsTruncated_page r
         \<longrightarrow> err = Some EOF)
   \<and> (\<forall>r err. local_ListObjectsFromDirectory lb fs pre lim = (Some r, err) \<and> \<not> IsTruncated_page r
         \<longrightarrow> (if os_Open fs (Join [RootDirectory lb, pre]) = Inl ErrNotExist
              then err = None \<and> GetDirectories r = [] \<and> GetFiles r = []
              else err = Some EOF))
   \<and> (\<forall>out w1. \<not> nextPageCalled l \<and> \<not> isEOF l
         \<and> Client_ListObjectsV2 w (NextPage_request l) = (Inr out, w1) \<and> IsTruncated out \<noteq> Some True
         \<longrightarrow> (\<exists>r. fst (s3_NextPage l w) = (Some r, Some EOF) \<and> \<not> IsTruncated_page r
                \<and> GetDirectories r = read_directories (Prefix (backend l)) (CommonPrefixes out) []
                \<and> GetFiles r = read_files (Prefix (backend l)) (Contents out) []))
   \<and> (\<forall>entries f'. \<not> nextPageCalled ll \<and> \<not> isEOF ll \<and> limit ll \<le> 0
         \<and> ReadDir (directory ll) (limit ll) = ((entries, None), f')
         \<longrightarrow> (\<exists>r. fst (local_NextPage ll) = (Some r, Some EOF) \<and> \<not> IsTruncated_page r
                \<and> (GetDirectories r, GetFiles r) = read_entries (prefix ll) entries ([], [])))"
proof (intro conjI allI impI)
  fix r err
  assume "fst (s3_NextPage l w) = (Some r, err) \<and> \<not> IsTruncated_page r"
  then show "err = Some EOF"
    using s3_NextPage_final [of l w r err] by (simp add: IsTruncated_page_def)
next
  fix r err
  assume "fst (local_NextPage ll) = (Some r, err) \<and> \<not> IsTruncated_page r"
  then show "err = Some EOF"
    using local_NextPage_final [of ll r err] by (simp add: IsTruncated_page_def)
next
  fix r err
  assume "fst (s3_ListObjectsFromDirectory b w pre lim) = (Some r, err) \<and> \<not> IsTruncated_page r"
  then show "err = Some EOF"
    using s3_ListObjectsFromDirectory_final [of b w pre lim r err] by (simp add: IsTruncated_page_def)
next
  fix r err
  assume "local_ListObjectsFromDirectory lb fs pre lim = (Some r, err) \<and> \<not> IsTruncated_page r"
  then show "if os_Open fs (Join [RootDirectory lb, pre]) = Inl ErrNotExist
              then err = None \<and> GetDirectories r = [] \<and> GetFiles r = []
              else err = Some EOF"
    using local_ListObjectsFromDirectory_final [of lb fs pre lim r err]
    by (simp add: IsTruncated_page_def GetDirectories_def GetFiles_def)
next
  fix out w1
  assume a: "\<not> nextPageCalled l \<and> \<not> isEOF l
         \<and> Client_ListObjectsV2 w (NextPage_request l) = (Inr out, w1) \<and> IsTruncated out \<noteq> Some True"
  then obtain r where r: "s3_NextPage l w = ((Some r, if isEOF r then Some EOF else None), l\<lparr>nextPageCalled := True\<rparr>, w1)"
      "directoriesRead r = read_directories (Prefix (backend l)) (CommonPrefixes out) []"
      "filesRead r = read_files (Prefix (backend l)) (Contents out) []"
      "isEOF r = (case IsTruncated out of None \<Rightarrow> True | Some t \<Rightarrow> \<not> t)"
    using s3_NextPage_listed [of l w out w1] by blast
  from a r(4) have "isEOF r" by (cases "IsTruncated out") auto
  with r show "\<exists>r. fst (s3_NextPage l w) = (Some r, Some EOF) \<and> \<not> IsTruncated_page r
                \<and> GetDirectories r = read_directories (Prefix (backend l)) (CommonPrefixes out) []
                \<and> GetFiles r = read_files (Prefix (backend l)) (Contents out) []"
    by (simp add: IsTruncated_page_def GetDirectories_def GetFiles_def)
next
  fix entries f'
  assume a: "\<not> nextPageCalled ll \<and> \<not> isEOF ll \<and> limit ll \<le> 0
         \<and> ReadDir (directory ll) (limit ll) = ((entries, None), f')"
  obtain ds fs where re: "read_entries (prefix ll) entries ([], []) = (ds, fs)"
    by (metis prod.exhaust)
  from a re obtain r err' where r:
      "local_NextPage ll = ((Some r, err'), ll\<lparr>nextPageCalled := True, directory := f'\<rparr>)"
      "directoriesRead r = ds" "filesRead r = fs"
      "isEOF r = ((0 < limit ll \<and> None = Some EOF) \<or> (limit ll \<le> 0 \<and> (None :: error option) = None))"
      "err' = (if isEOF r \<and> (None :: error option) = None then Some EOF else None)"
    using local_NextPage_read [of ll entries None f' ds fs] by blast
  from a r(4) have e: "isEOF r" by simp
  with r re show "\<exists>r. fst (local_NextPage ll) = (Some r, Some EOF) \<and> \<not> IsTruncated_page r
                \<and> (GetDirectories r, GetFiles r) = read_entries (prefix ll) entries ([], [])"
    by (simp add: IsTruncated_page_def GetDirectories_def GetFiles_def)
qed

text \<open>The example bucket's root, listed in one complete page: the page carries the
  directory and the file, and comes with \<open>io.EOF\<close>. The same for the local directory,
  and for \<open>NextPage\<close> of both backends.\<close>

theorem final_page_with_EOF_witness:
  "fst (fst (s3_ListObjectsFromDirectory listing_backend listing_bucket [] 0))
     = Some \<lparr>prefix = [], limit = 0,
              filesRead = [\<lparr>Path = ''/file.txt'', LastModified = 9\<rparr>],
              directoriesRead = [\<lparr>Path = ''/dir/'', LastModified = 0\<rparr>],
              nextPageCalled = False, isEOF = True,
              backend = listing_backend, continuationToken = []\<rparr>
   \<and> snd (fst (s3_ListObjectsFromDirectory listing_backend listing_bucket [] 0)) = Some EOF
   \<and> fst (local_ListObjectsFromDirectory srv_backend srv_fs [] 0)
     = Some \<lparr>prefix = [], limit = 0,
              filesRead = [\<lparr>Path = ''index.yaml'', LastModified = 0\<rparr>],
              directoriesRead = [\<lparr>Path = ''sub'', LastModified = 0\<rparr>],
              nextPageCalled = False, isEOF = True,
              directory = Some \<lparr>node = Directory [\<lparr>Name = ''index.yaml'', IsDir = False\<rparr>,
                                                 \<lparr>Name = ''sub'', IsDir = True\<rparr>] None,
                                unread = [], read_error = None\<rparr>\<rparr>
   \<and> snd (local_ListObjectsFromDirectory srv_backend srv_fs [] 0) = Some EOF
   \<and> (\<exists>r. fst (s3_NextPage fresh_page listing_bucket) = (Some r, Some EOF) \<and> \<not> IsTruncated_page r
          \<and> map Path (GetDirectories r) = [''/dir/''] \<and> map Path (GetFiles r) = [''/file.txt''])
   \<and> (\<exists>r. fst (local_NextPage srv_page) = (Some r, Some EOF) \<and> \<not> IsTruncated_page r
          \<and> map Path (GetDirectories r) = [''sub/deep''] \<and> map Path (GetFiles r) = [''sub/a.tgz''])"
proof -
  let ?r = "\<lparr>prefix = [], limit = 0,
              filesRead = [\<lparr>Path = ''/file.txt'', LastModified = 9\<rparr>],
              directoriesRead = [\<lparr>Path = ''/dir/'', LastModified = 0\<rparr>],
              nextPageCalled = False, isEOF = True,
              backend = listing_backend, continuationToken = []\<rparr>"
  let ?q = "\<lparr>prefix = [], limit = 0,
              filesRead = [\<lparr>Path = ''index.yaml'', LastModified = 0\<rparr>],
              directoriesRead = [\<lparr>Path = ''sub'', LastModified = 0\<rparr>],
              nextPageCalled = False, isEOF = True,
              directory = Some \<lparr>node = Directory [\<lparr>Name = ''index.yaml'', IsDir = False\<rparr>,
                                                 \<lparr>Name = ''sub'', IsDir = True\<rparr>] None,
                                unread = [], read_error = None\<rparr>\<rparr>"
  have k: "cleanPrefix (Join [''charts'', []]) = ''charts''" by code_simp
  have p1: "listed_path ''charts'' ''charts/dir/'' = ''/dir/''" by code_simp
  have p2: "listed_path ''charts'' ''charts/file.txt'' = ''/file.txt''" by code_simp
  have j0: "Join [''/srv'', []] = ''/srv''" by code_simp
  have j1: "Join [[], ''index.yaml''] = ''index.yaml''" by code_simp
  have j2: "Join [[], ''sub''] = ''sub''" by code_simp
  have s: "fst (fst (s3_ListObjectsFromDirectory listing_backend listing_bucket [] 0)) = Some ?r"
    by (simp add: s3_ListObjectsFromDirectory_def s3_NextPage_def NextPage_request_def Client_HeadObject_def
        Client_ListObjectsV2_def listing_backend_def listing_bucket_def k p1 p2 sent_def Let_def zeroTime_def)
  have l: "fst (local_ListObjectsFromDirectory srv_backend srv_fs [] 0) = Some ?q"
    by (simp add: local_ListObjectsFromDirectory_def local_NextPage_def srv_backend_def srv_fs_def
        os_Open_def Stat_IsDir_def ReadDir_def j0 j1 j2 Let_def zeroTime_def errors_Is_def)
  have t: "\<not> IsTruncated_page ?r" "\<not> IsTruncated_page ?q" by (simp_all add: IsTruncated_page_def)
  have o: "os_Open srv_fs (Join [RootDirectory srv_backend, []]) \<noteq> Inl ErrNotExist"
    by (simp add: srv_backend_def j0 os_Open_def srv_fs_def)
  from final_page_with_EOF [of fresh_page listing_bucket srv_page listing_backend "[]" 0 srv_backend srv_fs]
  have "snd (fst (s3_ListObjectsFromDirectory listing_backend listing_bucket [] 0)) = Some EOF"
    and "snd (local_ListObjectsFromDirectory srv_backend srv_fs [] 0) = Some EOF"
    using s l t o by (metis prod.collapse)+
  note ends = this
  have fp: "\<not> nextPageCalled fresh_page \<and> \<not> isEOF fresh_page
      \<and> Client_ListObjectsV2 listing_bucket (NextPage_request fresh_page)
        = (Inr \<lparr>CommonPrefixes = [Some ''charts/dir/''],
            Contents = [\<lparr>Key = Some ''charts/file.txt'', Key_LastModified = Some 9\<rparr>],
            IsTruncated = Some False, KeyCount = Some 2,
            out_ContinuationToken = None, NextContinuationToken = None\<rparr>,
           snd (Client_ListObjectsV2 listing_bucket (NextPage_request fresh_page)))
      \<and> IsTruncated \<lparr>CommonPrefixes = [Some ''charts/dir/''],
            Contents = [\<lparr>Key = Some ''charts/file.txt'', Key_LastModified = Some 9\<rparr>],
            IsTruncated = Some False, KeyCount = Some 2,
            out_ContinuationToken = None, NextContinuationToken = None\<rparr> \<noteq> Some True"
    using fresh_page_listing by (simp add: fresh_page_def) (metis prod.collapse)
  have sp: "\<not> nextPageCalled srv_page \<and> \<not> isEOF srv_page \<and> limit srv_page \<le> 0
      \<and> ReadDir (directory srv_page) (limit srv_page)
        = (([\<lparr>Name = ''a.tgz'', IsDir = False\<rparr>, \<lparr>Name = ''deep'', IsDir = True\<rparr>], None),
           Some \<lparr>node = Directory [\<lparr>Name = ''a.tgz'', IsDir = False\<rparr>, \<lparr>Name = ''deep'', IsDir = True\<rparr>] None,
                 unread = [], read_error = None\<rparr>)"
    by (simp add: ReadDir_def srv_page_def)
  have j3: "Join [''sub'', ''a.tgz''] = ''sub/a.tgz''" "Join [''sub'', ''deep''] = ''sub/deep''"
    by code_simp+
  from final_page_with_EOF [of fresh_page listing_bucket srv_page listing_backend "[]" 0 srv_backend srv_fs,
      THEN conjunct2, THEN conjunct2, THEN conjunct2, THEN conjunct2, THEN conjunct1, rule_format, OF fp]
  obtain r where r: "fst (s3_NextPage fresh_page listing_bucket) = (Some r, Some EOF)" "\<not> IsTruncated_page r"
      "GetDirectories r = read_directories (Prefix (backend fresh_page)) [Some ''charts/dir/''] []"
      "GetFiles r = read_files (Prefix (backend fresh_page))
                      [\<lparr>Key = Some ''charts/file.txt'', Key_LastModified = Some 9\<rparr>] []"
    by auto
  have five: "\<exists>r. fst (s3_NextPage fresh_page listing_bucket) = (Some r, Some EOF) \<and> \<not> IsTruncated_page r
          \<and> map Path (GetDirectories r) = [''/dir/''] \<and> map Path (GetFiles r) = [''/file.txt'']"
    using r by (intro exI [of _ r]) (simp add: fresh_page_def listing_backend_def p1 p2)
  from final_page_with_EOF [of fresh_page listing_bucket srv_page listing_backend "[]" 0 srv_backend srv_fs,
      THEN conjunct2, THEN conjunct2, THEN conjunct2, THEN conjunct2, THEN conjunct2, rule_format, OF sp]
  obtain q where q: "fst (local_NextPage srv_page) = (Some q, Some EOF)" "\<not> IsTruncated_page q"
      "(GetDirectories q, GetFiles q) = read_entries (prefix srv_page)
          [\<lparr>Name = ''a.tgz'', IsDir = False\<rparr>, \<lparr>Name = ''deep'', IsDir = True\<rparr>] ([], [])"
    by auto
  have six: "\<exists>r. fst (local_NextPage srv_page) = (Some r, Some EOF) \<and> \<not> IsTruncated_page r
          \<and> map Path (GetDirectories r) = [''sub/deep''] \<and> map Path (GetFiles r) = [''sub/a.tgz'']"
    using q by (intro exI [of _ q]) (simp add: srv_page_def j3 Let_def)
  from s l ends five six show ?thesis by simp
qed

text \<open>Listing a path that does not exist returns a page that is not truncated, with a
  nil error.\<close>

theorem final_page_without_EOF:
  "local_ListObjectsFromDirectory srv_backend srv_fs ''nowhere'' 0 = (Some exhausted_page, None)
   \<and> \<not> IsTruncated_page exhausted_page"
proof -
  have j: "Join [''/srv'', ''nowhere''] = ''/srv/nowhere''" by code_simp
  show ?thesis
    by (simp add: local_ListObjectsFromDirectory_def srv_backend_def j os_Open_def srv_fs_def
        os_IsNotExist_def exhausted_page_def IsTruncated_page_def)
qed

section \<open>The entries of a page\<close>

text \<open>
  C8 (as amended). A page the S3 pager makes from a listing holds, in order, one
  directory entry per common prefix and one file entry per key that is present and not
  empty; the path is the key with the backend's root prefix stripped and a leading
  separator added when missing, and only a path that is the bare separator is dropped.
  So every entry's path starts with a separator and fails \<open>isValidLeaf\<close>: that test
  filters nothing here. A page the local pager makes holds one entry per directory entry
  read, with the path \<open>Join(prefix, name)\<close>, directories in one list and everything else
  in the other; nothing is dropped.
\<close>

theorem page_entries:
  "(\<forall>out w1. \<not> nextPageCalled l \<and> \<not> isEOF l
        \<and> Client_ListObjectsV2 w (NextPage_request l) = (Inr out, w1) \<longrightarrow>
      (\<exists>r err. fst (s3_NextPage l w) = (Some r, err)
         \<and> map Path (GetDirectories r)
             = filter (\<lambda>p. p \<noteq> ''/'') (map (listed_path (Prefix (backend l))) (present_keys (CommonPrefixes out)))
         \<and> map Path (GetFiles r)
             = filter (\<lambda>p. p \<noteq> ''/'') (map (listed_path (Prefix (backend l))) (present_keys (map Key (Contents out))))
         \<and> (\<forall>m \<in> set (GetDirectories r @ GetFiles r).
               HasPrefix (Path m) ''/'' \<and> objectPathIsInvalid (Path m))))
   \<and> (\<forall>entries err f'. \<not> nextPageCalled ll \<and> \<not> isEOF ll
        \<and> ReadDir (directory ll) (limit ll) = ((entries, err), f') \<longrightarrow>
      (\<exists>r err'. fst (local_NextPage ll) = (Some r, err')
         \<and> GetDirectories r = map (\<lambda>e. entry_of (Join [prefix ll, Name e])) (filter IsDir entries)
         \<and> GetFiles r = map (\<lambda>e. entry_of (Join [prefix ll, Name e])) (filter (\<lambda>e. \<not> IsDir e) entries)))"
proof (intro conjI allI impI)
  fix out w1
  assume a: "\<not> nextPageCalled l \<and> \<not> isEOF l \<and> Client_ListObjectsV2 w (NextPage_request l) = (Inr out, w1)"
  then obtain r where r: "s3_NextPage l w = ((Some r, if isEOF r then Some EOF else None), l\<lparr>nextPageCalled := True\<rparr>, w1)"
      "directoriesRead r = read_directories (Prefix (backend l)) (CommonPrefixes out) []"
      "filesRead r = read_files (Prefix (backend l)) (Contents out) []"
    using s3_NextPage_listed [of l w out w1] by blast
  have d: "map Path (GetDirectories r)
      = filter (\<lambda>p. p \<noteq> ''/'') (map (listed_path (Prefix (backend l))) (present_keys (CommonPrefixes out)))"
    using r(2) read_directories_eq [of "Prefix (backend l)" "CommonPrefixes out" "[]"]
    by (simp add: GetDirectories_def)
  have f: "map Path (GetFiles r)
      = filter (\<lambda>p. p \<noteq> ''/'') (map (listed_path (Prefix (backend l))) (present_keys (map Key (Contents out))))"
    using r(3) read_files_eq [of "Prefix (backend l)" "Contents out" "[]"]
    by (simp add: GetFiles_def)
  have "\<forall>p \<in> set (map Path (GetDirectories r) @ map Path (GetFiles r)). HasPrefix p ''/'' \<and> objectPathIsInvalid p"
    unfolding d f using listed_path_slash listed_path_invalid by auto
  then have all: "\<forall>m \<in> set (GetDirectories r @ GetFiles r). HasPrefix (Path m) ''/'' \<and> objectPathIsInvalid (Path m)"
    by auto
  from r(1) d f all show "\<exists>r err. fst (s3_NextPage l w) = (Some r, err)
         \<and> map Path (GetDirectories r)
             = filter (\<lambda>p. p \<noteq> ''/'') (map (listed_path (Prefix (backend l))) (present_keys (CommonPrefixes out)))
         \<and> map Path (GetFiles r)
             = filter (\<lambda>p. p \<noteq> ''/'') (map (listed_path (Prefix (backend l))) (present_keys (map Key (Contents out))))
         \<and> (\<forall>m \<in> set (GetDirectories r @ GetFiles r).
               HasPrefix (Path m) ''/'' \<and> objectPathIsInvalid (Path m))"
    by (intro exI [of _ r] exI [of _ "if isEOF r then Some EOF else None"]) simp
next
  fix entries err f'
  assume a: "\<not> nextPageCalled ll \<and> \<not> isEOF ll \<and> ReadDir (directory ll) (limit ll) = ((entries, err), f')"
  let ?ds = "map (\<lambda>e. entry_of (Join [prefix ll, Name e])) (filter IsDir entries)"
  let ?fs = "map (\<lambda>e. entry_of (Join [prefix ll, Name e])) (filter (\<lambda>e. \<not> IsDir e) entries)"
  have re: "read_entries (prefix ll) entries ([], []) = (?ds, ?fs)"
    by (simp add: read_entries_eq)
  from a obtain r err' where "local_NextPage ll = ((Some r, err'), ll\<lparr>nextPageCalled := True, directory := f'\<rparr>)"
      "directoriesRead r = ?ds" "filesRead r = ?fs"
    using local_NextPage_read [of ll entries err f' ?ds ?fs, OF _ _ _ re] by blast
  then show "\<exists>r err'. fst (local_NextPage ll) = (Some r, err')
         \<and> GetDirectories r = ?ds \<and> GetFiles r = ?fs"
    by (simp add: GetDirectories_def GetFiles_def)
qed

theorem page_entries_witness:
  "(\<exists>r err. fst (s3_NextPage fresh_page listing_bucket) = (Some r, err)
       \<and> map Path (GetDirectories r) = [''/dir/'']
       \<and> map Path (GetFiles r) = [''/file.txt''])
   \<and> (\<exists>r err'. fst (local_NextPage srv_page) = (Some r, err')
       \<and> GetDirectories r = [\<lparr>Path = ''sub/deep'', LastModified = 0\<rparr>]
       \<and> GetFiles r = [\<lparr>Path = ''sub/a.tgz'', LastModified = 0\<rparr>])"
proof -
  have p: "listed_path ''charts'' ''charts/dir/'' = ''/dir/''"
    "listed_path ''charts'' ''charts/file.txt'' = ''/file.txt''"
    by code_simp+
  have j: "Join [''sub'', ''a.tgz''] = ''sub/a.tgz''" "Join [''sub'', ''deep''] = ''sub/deep''"
    by code_simp+
  have c: "Client_ListObjectsV2 listing_bucket (NextPage_request fresh_page)
     = (Inr \<lparr>CommonPrefixes = [Some ''charts/dir/''],
            Contents = [\<lparr>Key = Some ''charts/file.txt'', Key_LastModified = Some 9\<rparr>],
            IsTruncated = Some False, KeyCount = Some 2,
            out_ContinuationToken = None, NextContinuationToken = None\<rparr>,
        snd (Client_ListObjectsV2 listing_bucket (NextPage_request fresh_page)))"
    using fresh_page_listing by (metis prod.collapse)
  have f: "\<not> nextPageCalled fresh_page \<and> \<not> isEOF fresh_page" "Prefix (backend fresh_page) = ''charts''"
    by (simp_all add: fresh_page_def listing_backend_def)
  have rd: "ReadDir (directory srv_page) (limit srv_page)
      = (([\<lparr>Name = ''a.tgz'', IsDir = False\<rparr>, \<lparr>Name = ''deep'', IsDir = True\<rparr>], None),
         Some \<lparr>node = Directory [\<lparr>Name = ''a.tgz'', IsDir = False\<rparr>, \<lparr>Name = ''deep'', IsDir = True\<rparr>] None,
               unread = [], read_error = None\<rparr>)"
    by (simp add: ReadDir_def srv_page_def)
  have l: "\<not> nextPageCalled srv_page \<and> \<not> isEOF srv_page" "prefix srv_page = ''sub''"
    by (simp_all add: srv_page_def)
  have "\<not> nextPageCalled fresh_page \<and> \<not> isEOF fresh_page
      \<and> Client_ListObjectsV2 listing_bucket (NextPage_request fresh_page)
     = (Inr \<lparr>CommonPrefixes = [Some ''charts/dir/''],
            Contents = [\<lparr>Key = Some ''charts/file.txt'', Key_LastModified = Some 9\<rparr>],
            IsTruncated = Some False, KeyCount = Some 2,
            out_ContinuationToken = None, NextContinuationToken = None\<rparr>,
        snd (Client_ListObjectsV2 listing_bucket (NextPage_request fresh_page)))"
    using c f by simp
  from page_entries [of fresh_page listing_bucket srv_page, THEN conjunct1, rule_format, OF this]
  obtain r err where r: "fst (s3_NextPage fresh_page listing_bucket) = (Some r, err)"
    "map Path (GetDirectories r) = [''/dir/'']" "map Path (GetFiles r) = [''/file.txt'']"
    by (auto simp add: present_keys_def map_filter_simps p f)
  then have one: "\<exists>r err. fst (s3_NextPage fresh_page listing_bucket) = (Some r, err)
       \<and> map Path (GetDirectories r) = [''/dir/'']
       \<and> map Path (GetFiles r) = [''/file.txt'']"
    by (intro exI [of _ r] exI [of _ err]) simp
  have "\<not> nextPageCalled srv_page \<and> \<not> isEOF srv_page \<and> ReadDir (directory srv_page) (limit srv_page)
      = (([\<lparr>Name = ''a.tgz'', IsDir = False\<rparr>, \<lparr>Name = ''deep'', IsDir = True\<rparr>], None),
         Some \<lparr>node = Directory [\<lparr>Name = ''a.tgz'', IsDir = False\<rparr>, \<lparr>Name = ''deep'', IsDir = True\<rparr>] None,
               unread = [], read_error = None\<rparr>)"
    using rd l by simp
  from page_entries [of fresh_page listing_bucket srv_page, THEN conjunct2, rule_format, OF this]
  obtain q err' where q: "fst (local_NextPage srv_page) = (Some q, err')"
    "GetDirectories q = [\<lparr>Path = ''sub/deep'', LastModified = 0\<rparr>]"
    "GetFiles q = [\<lparr>Path = ''sub/a.tgz'', LastModified = 0\<rparr>]"
    by (auto simp add: entry_of_def j l zeroTime_def)
  then have two: "\<exists>r err'. fst (local_NextPage srv_page) = (Some r, err')
       \<and> GetDirectories r = [\<lparr>Path = ''sub/deep'', LastModified = 0\<rparr>]
       \<and> GetFiles r = [\<lparr>Path = ''sub/a.tgz'', LastModified = 0\<rparr>]"
    by (intro exI [of _ q] exI [of _ err']) simp
  from one two show ?thesis by (rule conjI)
qed

text \<open>The example page: its directory entry ends with a separator, its file entry
  contains one and so fails \<open>isValidLeaf\<close>, and both are on the page.\<close>

theorem page_entries_counterexample:
  "fst (s3_NextPage fresh_page listing_bucket)
     = (Some \<lparr>prefix = [], limit = 0,
              filesRead = [\<lparr>Path = ''/file.txt'', LastModified = 9\<rparr>],
              directoriesRead = [\<lparr>Path = ''/dir/'', LastModified = 0\<rparr>],
              nextPageCalled = False, isEOF = True,
              backend = listing_backend, continuationToken = []\<rparr>, Some EOF)
   \<and> HasSuffix ''/dir/'' ''/''
   \<and> objectPathIsInvalid ''/dir/''
   \<and> objectPathIsInvalid ''/file.txt''"
proof -
  have k: "cleanPrefix (Join [''charts'', []]) = ''charts''" by code_simp
  have p: "listed_path ''charts'' ''charts/dir/'' = ''/dir/''"
    "listed_path ''charts'' ''charts/file.txt'' = ''/file.txt''"
    by code_simp+
  have i: "HasSuffix ''/dir/'' ''/''" "objectPathIsInvalid ''/dir/''" "objectPathIsInvalid ''/file.txt''"
    by code_simp+
  have "fst (s3_NextPage fresh_page listing_bucket)
     = (Some \<lparr>prefix = [], limit = 0,
              filesRead = [\<lparr>Path = ''/file.txt'', LastModified = 9\<rparr>],
              directoriesRead = [\<lparr>Path = ''/dir/'', LastModified = 0\<rparr>],
              nextPageCalled = False, isEOF = True,
              backend = listing_backend, continuationToken = []\<rparr>, Some EOF)"
    by (simp add: s3_NextPage_def NextPage_request_def Client_ListObjectsV2_def fresh_page_def
        listing_backend_def listing_bucket_def k p Let_def zeroTime_def)
  with i show ?thesis by simp
qed

section \<open>Listing a path that is an object\<close>

text \<open>X2. The S3 backend: when the head request for the key succeeds, the listing fails with
  \<open>ErrPrefixIsAnObject\<close>, and the head request is the only request sent.\<close>

theorem s3_ListObjectsFromDirectory_on_object:
  assumes "fst (Client_HeadObject w (cleanPrefix (Join [Prefix b, pre]))) = None"
  shows "fst (s3_ListObjectsFromDirectory b w pre lim) = (None, Some ErrPrefixIsAnObject)
       \<and> requests (snd (s3_ListObjectsFromDirectory b w pre lim))
           = requests w @ [HeadObjectReq (cleanPrefix (Join [Prefix b, pre]))]
       \<and> objects (snd (s3_ListObjectsFromDirectory b w pre lim)) = objects w"
proof -
  obtain w1 where h: "Client_HeadObject w (cleanPrefix (Join [Prefix b, pre])) = (None, w1)"
    using assms by (metis prod.collapse)
  then have "s3_ListObjectsFromDirectory b w pre lim = ((None, Some ErrPrefixIsAnObject), w1)"
    by (simp add: s3_ListObjectsFromDirectory_def)
  then show ?thesis
    using HeadObject_frame [of w "cleanPrefix (Join [Prefix b, pre])"] h by simp
qed

text \<open>Listing \<open>new\<close>, an object of the example bucket.\<close>

theorem s3_ListObjectsFromDirectory_on_object_witness:
  "fst (Client_HeadObject example_bucket ''new'') = None
   \<and> fst (s3_ListObjectsFromDirectory example_backend example_bucket ''new'' 0)
        = (None, Some ErrPrefixIsAnObject)
   \<and> requests (snd (s3_ListObjectsFromDirectory example_backend example_bucket ''new'' 0))
        = [HeadObjectReq ''new'']"
proof -
  have h: "fst (Client_HeadObject example_bucket ''new'') = None"
    by (simp add: Client_HeadObject_def example_bucket_def)
  have p: "Prefix example_backend = []" "requests example_bucket = []"
    by (simp_all add: example_backend_def example_bucket_def)
  from s3_ListObjectsFromDirectory_on_object [of example_bucket example_backend "''new''" 0] h
  show ?thesis by (simp add: p example_keys)
qed

text \<open>The local backend: a path that opens and is not a directory fails before any
  directory is read, with an error of its own making.\<close>

lemma local_ListObjectsFromDirectory_not_a_directory:
  assumes "os_Open fs (Join [RootDirectory lb, pre]) = Inr f" and "Stat_IsDir f = Inr False"
  shows "local_ListObjectsFromDirectory lb fs pre lim = (None, Some (PlainError ''prefix is not a directory''))"
  using assms by (simp add: local_ListObjectsFromDirectory_def)

text \<open>
  C4. Listing \<open>index.yaml\<close>, a regular file under the root \<open>/srv\<close>, with the local
  backend: the call fails, and its error is not \<open>ErrPrefixIsAnObject\<close>.
\<close>

theorem local_ListObjectsFromDirectory_on_file:
  "srv_fs ''/srv/index.yaml'' = Some RegularFile
   \<and> local_ListObjectsFromDirectory srv_backend srv_fs ''index.yaml'' 0
       = (None, Some (PlainError ''prefix is not a directory''))
   \<and> PlainError ''prefix is not a directory'' \<noteq> ErrPrefixIsAnObject"
proof -
  have j: "Join [''/srv'', ''index.yaml''] = ''/srv/index.yaml''" by code_simp
  show ?thesis
    by (simp add: local_ListObjectsFromDirectory_def srv_backend_def j os_Open_def srv_fs_def
        Stat_IsDir_def)
qed

section \<open>Properties of the conditional delivery\<close>

lemma Split_slash_hd: "hd (Split_slash s) = takeWhile (\<lambda>c. c \<noteq> CHR ''/'') s"
  by (induction s) (auto split: list.splits simp: Split_slash_nonempty)

lemma Split_slash_tl:
  "tl (Split_slash s) = (if CHR ''/'' \<in> set s then Split_slash (tl (dropWhile (\<lambda>c. c \<noteq> CHR ''/'') s)) else [])"
  by (induction s) (auto split: list.splits simp: Split_slash_nonempty)

lemma Split_slash_second:
  "1 < length (Split_slash s) \<longleftrightarrow> CHR ''/'' \<in> set s"
  "CHR ''/'' \<in> set s \<Longrightarrow> Split_slash s ! 1 = takeWhile (\<lambda>c. c \<noteq> CHR ''/'') (tl (dropWhile (\<lambda>c. c \<noteq> CHR ''/'') s))"
proof -
  obtain e es where s: "Split_slash s = e # es"
    using Split_slash_nonempty [of s] by (cases "Split_slash s") auto
  have es: "es = (if CHR ''/'' \<in> set s then Split_slash (tl (dropWhile (\<lambda>c. c \<noteq> CHR ''/'') s)) else [])"
    using Split_slash_tl [of s] s by simp
  show "1 < length (Split_slash s) \<longleftrightarrow> CHR ''/'' \<in> set s"
    using s es Split_slash_nonempty by auto
  show "CHR ''/'' \<in> set s \<Longrightarrow> Split_slash s ! 1 = takeWhile (\<lambda>c. c \<noteq> CHR ''/'') (tl (dropWhile (\<lambda>c. c \<noteq> CHR ''/'') s))"
    using s es Split_slash_hd [of "tl (dropWhile (\<lambda>c. c \<noteq> CHR ''/'') s)"] Split_slash_nonempty
    by (auto simp: hd_conv_nth)
qed

lemma total_size_Split:
  "total_size cr = (if 1 < length (Split_slash cr) then ParseInt64 (TrimSpace (Split_slash cr ! 1)) else None)"
proof (cases "CHR ''/'' \<in> set cr")
  case True
  then show ?thesis
    using Split_slash_second(1) [of cr] Split_slash_second(2) [of cr]
    by (simp only: total_size_def if_True)
next
  case False
  then show ?thesis
    using Split_slash_second(1) [of cr]
    by (simp only: total_size_def if_False)
qed

text \<open>The status the handler resolves: 206 exactly when the answer has a content range
  and a content length, the total size of the range parses, and the two differ; 200
  otherwise.\<close>

lemma httpStatus_total_size:
  "httpStatus out =
     (if (\<exists>cr cl total. ContentRange out = Some cr \<and> ContentLength out = Some cl
            \<and> total_size cr = Some total \<and> total \<noteq> cl)
      then 206 else 200)"
proof (cases "ContentRange out")
  case None
  then show ?thesis by (simp add: httpStatus_def)
next
  case (Some cr)
  show ?thesis
  proof (cases "ContentLength out")
    case None
    then show ?thesis using Some by (simp add: httpStatus_def)
  next
    case cl: (Some cl)
    have ne: "1 < length (Split_slash cr) \<Longrightarrow> 0 < length cr"
      by (cases cr) auto
    show ?thesis
      using Some cl ne
      by (auto simp: httpStatus_def total_size_Split Let_def split: option.splits)
  qed
qed

lemma add_header_calls: "c \<in> set (add_header name v) \<Longrightarrow> \<exists>k x. c = Header_Add k x"
  by (cases v) (auto simp: add_header_def)

lemma response_headers_calls: "c \<in> set (response_headers env out) \<Longrightarrow> \<exists>k x. c = Header_Add k x"
  unfolding response_headers_def using add_header_calls by (auto simp only: set_append Un_iff)

lemma headers_keep_status:
  "\<forall>c \<in> set cs. \<exists>k x. c = Header_Add k x \<Longrightarrow>
     wroteHeader (foldl writer_call w cs) = wroteHeader w \<and> status (foldl writer_call w cs) = status w"
  by (induction cs arbitrary: w) auto

lemma HandleHttpFileDownload_delivers:
  assumes "parse_condition (ParseTime env) (If_Modified_Since r) = Some ims"
    and "parse_condition (ParseTime env) (If_Unmodified_Since r) = Some ius"
    and "GetObject env (GetObject_input b r path ims ius) = Inr out"
    and "Method r = ''HEAD'' \<or> \<not> Body_error out"
  shows "HandleHttpFileDownload env b r path =
           response_headers env out
           @ (if Method r \<noteq> ''HEAD'' then [Copy (Body_bytes out) False] else [])
           @ [WriteHeader (httpStatus out)]"
  using assms by (auto simp: HandleHttpFileDownload_def)

lemma respond_head:
  assumes "parse_condition (ParseTime env) (If_Modified_Since r) = Some ims"
    and "parse_condition (ParseTime env) (If_Unmodified_Since r) = Some ius"
    and "GetObject env (GetObject_input b r path ims ius) = Inr out"
    and "Method r = ''HEAD''"
  shows "status (respond (HandleHttpFileDownload env b r path)) = httpStatus out"
proof -
  let ?w0 = "\<lparr>wroteHeader = False, status = 200, sent_headers = [], pending_headers = [], body = []\<rparr>"
  have h: "HandleHttpFileDownload env b r path = response_headers env out @ [WriteHeader (httpStatus out)]"
    using HandleHttpFileDownload_delivers [OF assms(1-3)] assms(4) by simp
  have k: "wroteHeader (foldl writer_call ?w0 (response_headers env out)) = False"
    using headers_keep_status [of "response_headers env out" ?w0] response_headers_calls by fastforce
  show ?thesis
    by (simp add: respond_def h write_header_def k)
qed

lemma respond_body:
  assumes "parse_condition (ParseTime env) (If_Modified_Since r) = Some ims"
    and "parse_condition (ParseTime env) (If_Unmodified_Since r) = Some ius"
    and "GetObject env (GetObject_input b r path ims ius) = Inr out"
    and "Method r \<noteq> ''HEAD''" and "\<not> Body_error out" and "Body_bytes out \<noteq> []"
  shows "status (respond (HandleHttpFileDownload env b r path)) = 200"
proof -
  let ?w0 = "\<lparr>wroteHeader = False, status = 200, sent_headers = [], pending_headers = [], body = []\<rparr>"
  have h: "HandleHttpFileDownload env b r path
      = response_headers env out @ [Copy (Body_bytes out) False, WriteHeader (httpStatus out)]"
    using HandleHttpFileDownload_delivers [OF assms(1-3)] assms(4,5) by simp
  have k: "wroteHeader (foldl writer_call ?w0 (response_headers env out)) = False"
    using headers_keep_status [of "response_headers env out" ?w0] response_headers_calls by fastforce
  show ?thesis
    by (simp add: respond_def h write_header_def k assms(6))
qed

text \<open>
  X1. On a successful delivery (both date conditions absent or well-formed, the backend
  read answered, the body copied or the method \<open>HEAD\<close>) the handler's last call on the
  writer is \<open>WriteHeader\<close>, it is its only \<open>WriteHeader\<close>, and the status it passes is 206
  exactly when the answer has a content range and a content length, the total size of
  the range parses as an integer, and it differs from the content length; otherwise
  200. For a method other than \<open>HEAD\<close> the call comes after the copy of the body.
\<close>

theorem HandleHttpFileDownload_status:
  assumes "parse_condition (ParseTime env) (If_Modified_Since r) = Some ims"
    and "parse_condition (ParseTime env) (If_Unmodified_Since r) = Some ius"
    and "GetObject env (GetObject_input b r path ims ius) = Inr out"
    and "Method r = ''HEAD'' \<or> \<not> Body_error out"
  shows "\<exists>calls. HandleHttpFileDownload env b r path =
            calls @ [WriteHeader
              (if (\<exists>cr cl total. ContentRange out = Some cr \<and> ContentLength out = Some cl
                     \<and> total_size cr = Some total \<and> total \<noteq> cl)
               then 206 else 200)]
          \<and> list_all (\<lambda>c. case c of WriteHeader _ \<Rightarrow> False | _ \<Rightarrow> True) calls
          \<and> (Method r \<noteq> ''HEAD'' \<longleftrightarrow> Copy (Body_bytes out) False \<in> set calls)"
proof -
  let ?calls = "response_headers env out @ (if Method r \<noteq> ''HEAD'' then [Copy (Body_bytes out) False] else [])"
  have h: "HandleHttpFileDownload env b r path = ?calls @ [WriteHeader (httpStatus out)]"
    using HandleHttpFileDownload_delivers [OF assms] by simp
  have hs: "list_all (\<lambda>c. case c of WriteHeader _ \<Rightarrow> False | _ \<Rightarrow> True) (response_headers env out)"
    using response_headers_calls [of _ env out] by (fastforce simp: list_all_iff)
  then have a: "list_all (\<lambda>c. case c of WriteHeader _ \<Rightarrow> False | _ \<Rightarrow> True) ?calls"
    by simp
  have "Copy (Body_bytes out) False \<notin> set (response_headers env out)"
    using response_headers_calls [of "Copy (Body_bytes out) False" env out] by auto
  then have c: "Method r \<noteq> ''HEAD'' \<longleftrightarrow> Copy (Body_bytes out) False \<in> set ?calls"
    by simp
  from h a c show ?thesis
    unfolding httpStatus_total_size [of out] by (intro exI [of _ ?calls] conjI)
qed

text \<open>The ranged answer, asked for with \<open>HEAD\<close>: two headers, then status 206.\<close>

theorem HandleHttpFileDownload_status_witness:
  "\<exists>calls. HandleHttpFileDownload (http_env ranged_answer) example_backend (request_of ''HEAD'') ''chart.tgz''
      = calls @ [WriteHeader 206]
     \<and> list_all (\<lambda>c. case c of WriteHeader _ \<Rightarrow> False | _ \<Rightarrow> True) calls"
proof -
  have t: "total_size ''bytes 0-99/500'' = Some 500" by code_simp
  have p: "parse_condition (ParseTime (http_env ranged_answer)) (If_Modified_Since (request_of ''HEAD'')) = Some None"
    "parse_condition (ParseTime (http_env ranged_answer)) (If_Unmodified_Since (request_of ''HEAD'')) = Some None"
    by (simp_all add: parse_condition_def request_of_def)
  have g: "GetObject (http_env ranged_answer)
             (GetObject_input example_backend (request_of ''HEAD'') ''chart.tgz'' None None) = Inr ranged_answer"
    by (simp add: http_env_def)
  have m: "Method (request_of ''HEAD'') = ''HEAD'' \<or> \<not> Body_error ranged_answer"
    by (simp add: request_of_def)
  have e: "\<exists>cr cl total. ContentRange ranged_answer = Some cr \<and> ContentLength ranged_answer = Some cl
                     \<and> total_size cr = Some total \<and> total \<noteq> cl"
    by (simp add: ranged_answer_def t)
  from HandleHttpFileDownload_status [OF p g m] e show ?thesis
    by (simp only: if_True) blast
qed

text \<open>
  C5. The ranged answer (\<open>Content-Range: bytes 0-99/500\<close>, \<open>Content-Length: 100\<close>, a body of
  one hundred bytes): the handler resolves 206; asked for with \<open>GET\<close>, it copies the body
  before it calls \<open>WriteHeader\<close>, so the response goes out with status 200; asked for with
  \<open>HEAD\<close>, the response has status 206.
\<close>

theorem HandleHttpFileDownload_partial_content:
  "httpStatus ranged_answer = 206
   \<and> status (respond (HandleHttpFileDownload (http_env ranged_answer) example_backend
                (request_of ''GET'') ''chart.tgz'')) = 200
   \<and> status (respond (HandleHttpFileDownload (http_env ranged_answer) example_backend
                (request_of ''HEAD'') ''chart.tgz'')) = 206"
proof -
  have t: "total_size ''bytes 0-99/500'' = Some 500" by code_simp
  have s: "httpStatus ranged_answer = 206"
    by (simp add: httpStatus_total_size ranged_answer_def t)
  have p: "\<And>m. parse_condition (ParseTime (http_env ranged_answer)) (If_Modified_Since (request_of m)) = Some None"
    "\<And>m. parse_condition (ParseTime (http_env ranged_answer)) (If_Unmodified_Since (request_of m)) = Some None"
    by (simp_all add: parse_condition_def request_of_def)
  have g: "\<And>i. GetObject (http_env ranged_answer) i = Inr ranged_answer"
    by (simp add: http_env_def)
  have b: "\<not> Body_error ranged_answer" "Body_bytes ranged_answer \<noteq> []"
    by (simp_all add: ranged_answer_def)
  have m: "Method (request_of ''GET'') \<noteq> ''HEAD''" "Method (request_of ''HEAD'') = ''HEAD''"
    by (simp_all add: request_of_def)
  have get: "status (respond (HandleHttpFileDownload (http_env ranged_answer) example_backend
                (request_of ''GET'') ''chart.tgz'')) = 200"
    by (rule respond_body [OF p g m(1) b])
  have head: "status (respond (HandleHttpFileDownload (http_env ranged_answer) example_backend
                (request_of ''HEAD'') ''chart.tgz'')) = 206"
    using respond_head [OF p g m(2)] s by simp
  from s get head show ?thesis by simp
qed

end
